theory Spec2Isabelle
  imports Main
begin

section \<open>JavaScript values and helpers\<close>

text \<open>
  The values an event's \<open>data\<close> record (\<open>Record<string, unknown>\<close>) can hold. An absent
  key is \<open>undefined\<close>, modelled by \<open>None\<close> of the map. Numbers are modelled as
  integers: the sequence numbers and message indices of this program are whole numbers.
\<close>

datatype jsval = JNull | JBool bool | JNumber int | JString string | JObject nat

text \<open>JavaScript truthiness of a value and of an optional string.\<close>

fun truthy_val :: "jsval option \<Rightarrow> bool" where
  "truthy_val None = False"
| "truthy_val (Some JNull) = False"
| "truthy_val (Some (JBool b)) = b"
| "truthy_val (Some (JNumber n)) = (n \<noteq> 0)"
| "truthy_val (Some (JString s)) = (s \<noteq> [])"
| "truthy_val (Some (JObject a)) = True"

fun truthy :: "string option \<Rightarrow> bool" where
  "truthy None = False"
| "truthy (Some s) = (s \<noteq> [])"

text \<open>\<open>typeof d?.k === "string" ? d.k : undefined\<close>\<close>

definition str_field :: "(string \<rightharpoonup> jsval) \<Rightarrow> string \<Rightarrow> string option" where
  "str_field d k = (case d k of Some (JString s) \<Rightarrow> Some s | _ \<Rightarrow> None)"

text \<open>
  \<open>Array.prototype.findIndex\<close>: the callback receives the element and its index; the
  result \<open>-1\<close> of the source is \<open>None\<close> here.
\<close>

fun findIndexFrom :: "nat \<Rightarrow> ('a \<Rightarrow> nat \<Rightarrow> bool) \<Rightarrow> 'a list \<Rightarrow> nat option" where
  "findIndexFrom i P [] = None"
| "findIndexFrom i P (x # xs) = (if P x i then Some i else findIndexFrom (Suc i) P xs)"

definition findIndex :: "('a \<Rightarrow> nat \<Rightarrow> bool) \<Rightarrow> 'a list \<Rightarrow> nat option" where
  "findIndex P xs = findIndexFrom 0 P xs"

section \<open>Run link registry (createChatRunRegistry)\<close>

record ChatRunEntry =
  sessionKey :: string
  clientRunId :: string

type_synonym chatRunSessions = "string \<rightharpoonup> ChatRunEntry list"

definition add :: "chatRunSessions \<Rightarrow> string \<Rightarrow> ChatRunEntry \<Rightarrow> chatRunSessions" where
  "add m sessionId entry =
     (case m sessionId of
        Some queue \<Rightarrow> m(sessionId \<mapsto> queue @ [entry])
      | None \<Rightarrow> m(sessionId \<mapsto> [entry]))"

definition peek :: "chatRunSessions \<Rightarrow> string \<Rightarrow> ChatRunEntry option" where
  "peek m sessionId =
     (case m sessionId of
        None \<Rightarrow> None
      | Some [] \<Rightarrow> None
      | Some (entry # rest) \<Rightarrow> Some entry)"

definition shift :: "chatRunSessions \<Rightarrow> string \<Rightarrow> ChatRunEntry option \<times> chatRunSessions" where
  "shift m sessionId =
     (case m sessionId of
        None \<Rightarrow> (None, m)
      | Some [] \<Rightarrow> (None, m)
      | Some (entry # rest) \<Rightarrow>
          (Some entry, if rest = [] then m(sessionId := None) else m(sessionId \<mapsto> rest)))"

text \<open>The predicate handed to \<open>findIndex\<close> by \<open>remove\<close>.\<close>

definition removeMatches :: "string \<Rightarrow> string option \<Rightarrow> ChatRunEntry \<Rightarrow> bool" where
  "removeMatches cid sk entry \<longleftrightarrow>
     clientRunId entry = cid \<and> (if truthy sk then Some (sessionKey entry) = sk else True)"

definition remove ::
  "chatRunSessions \<Rightarrow> string \<Rightarrow> string \<Rightarrow> string option \<Rightarrow> ChatRunEntry option \<times> chatRunSessions"
where
  "remove m sessionId cid sk =
     (case m sessionId of
        None \<Rightarrow> (None, m)
      | Some queue \<Rightarrow>
          if queue = [] then (None, m)
          else (case findIndex (\<lambda>entry i. removeMatches cid sk entry) queue of
                  None \<Rightarrow> (None, m)
                | Some idx \<Rightarrow>
                    let entry = queue ! idx;
                        queue' = take idx queue @ drop (Suc idx) queue
                    in (Some entry,
                        if queue' = [] then m(sessionId := None) else m(sessionId \<mapsto> queue'))))"

definition clear :: "chatRunSessions" where
  "clear = Map.empty"

section \<open>Router state (createChatRunState, agentRunSeq)\<close>

record ChatRunState =
  registry :: chatRunSessions
  messageIndexByRun :: "string \<rightharpoonup> int"
  abortedRuns :: "string \<rightharpoonup> int"

text \<open>
  The handler closes over \<open>chatRunState\<close> and over the map \<open>agentRunSeq\<close>; both are
  mutated by it, so the state threaded through the model holds both.
\<close>

record RouterState = ChatRunState +
  agentRunSeq :: "string \<rightharpoonup> int"

definition createChatRunState :: ChatRunState where
  "createChatRunState =
     \<lparr>registry = Map.empty, messageIndexByRun = Map.empty, abortedRuns = Map.empty\<rparr>"

definition clearState :: "ChatRunState \<Rightarrow> ChatRunState" where
  "clearState s = s\<lparr>registry := clear, messageIndexByRun := Map.empty, abortedRuns := Map.empty\<rparr>"

definition initialRouterState :: RouterState where
  "initialRouterState =
     \<lparr>registry = Map.empty, messageIndexByRun = Map.empty, abortedRuns = Map.empty,
      agentRunSeq = Map.empty\<rparr>"

section \<open>Events and outbound notifications\<close>

text \<open>
  Modelled from the spec: the type \<open>AgentEventPayload\<close> is declared in
  \<open>../infra/agent-events\<close>, which is not among the sources. An event carries the run
  identifier, the sequence number, the stream (\<open>assistant\<close>, \<open>tool\<close>, \<open>lifecycle\<close>, ...),
  a timestamp and a \<open>data\<close> record, of which the handler reads the keys \<open>text\<close>,
  \<open>phase\<close>, \<open>name\<close> and \<open>error\<close>.
\<close>

record AgentEventPayload =
  runId :: string
  seq :: int
  stream :: string
  ts :: int
  data :: "string \<rightharpoonup> jsval"

datatype chat_state = Delta | Final | Aborted | Error | ToolStart | ToolEnd

record content_item =
  item_type :: string
  item_text :: string

record chat_message =
  role :: string
  content :: "content_item list"
  timestamp :: int

text \<open>
  The object sent on the chat channel. Every variant has \<open>runId\<close>, \<open>sessionKey\<close>,
  \<open>seq\<close> and \<open>state\<close>; a key that a variant does not have is \<open>None\<close>. The field
  \<open>p_tool\<close> is the \<open>name\<close> of \<open>tool: { name }\<close>.
\<close>

record ChatPayload =
  p_runId :: string
  p_sessionKey :: string
  p_seq :: int
  p_state :: chat_state
  p_messageIndex :: "int option"
  p_message :: "chat_message option"
  p_errorMessage :: "string option"
  p_tool :: "string option"

text \<open>
  The diagnostic object of the sequence guard:
  \<open>{ runId, stream: "error", ts, sessionKey, data: { reason, expected, received } }\<close>.
  Unlike a forwarded event it has no \<open>seq\<close> key.
\<close>

record SeqGapPayload =
  g_runId :: string
  g_stream :: string
  g_ts :: int
  g_sessionKey :: "string option"
  g_reason :: string
  g_expected :: int
  g_received :: int

text \<open>
  \<open>AgentP evt sk\<close> is the forwarded event: \<open>{ ...evt, sessionKey }\<close> when \<open>sk\<close> is
  \<open>Some\<close>, and \<open>evt\<close> itself otherwise.
\<close>

datatype payload =
    ChatP ChatPayload
  | AgentP AgentEventPayload "string option"
  | DiagP SeqGapPayload

text \<open>
  The calls the handler makes on its collaborators, in the order it makes them:
  \<open>broadcast(event, payload, opts)\<close> with the flag \<open>opts?.dropIfSlow\<close> (false when no
  options are passed), \<open>nodeSendToSession(sessionKey, event, payload)\<close> and
  \<open>clearAgentRunContext(runId)\<close>.
\<close>

datatype effect =
    Broadcast string payload bool
  | NodeSendToSession string string payload
  | ClearAgentRunContext string

text \<open>
  The collaborators the handler reads. \<open>runVerboseLevel r\<close> stands for
  \<open>normalizeVerboseLevel(getAgentRunContext(r)?.verboseLevel)\<close>;
  \<open>loadSessionEntry k\<close> is \<open>None\<close> when the lookup throws and otherwise the pair of
  \<open>normalizeVerboseLevel(entry?.verboseLevel)\<close> and
  \<open>normalizeVerboseLevel(cfg.agents?.defaults?.verboseDefault)\<close>.
\<close>

record Env =
  resolveSessionKeyForRun :: "string \<Rightarrow> string option"
  formatForLog :: "jsval \<Rightarrow> string"
  runVerboseLevel :: "string \<Rightarrow> string option"
  loadSessionEntry :: "string \<Rightarrow> (string option \<times> string option) option"

datatype tool_phase = PhaseStart | PhaseEnd

datatype job_state = JobDone | JobError

section \<open>The emitters of createAgentEventHandler\<close>

definition currentIndex :: "RouterState \<Rightarrow> string \<Rightarrow> int" where
  "currentIndex s cid = (case messageIndexByRun s cid of Some i \<Rightarrow> i | None \<Rightarrow> 0)"

definition emitToolEvent ::
  "string \<Rightarrow> string \<Rightarrow> int \<Rightarrow> tool_phase \<Rightarrow> string \<Rightarrow> RouterState \<Rightarrow> RouterState \<times> effect list"
where
  "emitToolEvent sk cid sq phase toolName s =
     (let s1 = (if phase = PhaseStart
                then s\<lparr>messageIndexByRun := (messageIndexByRun s)(cid \<mapsto> currentIndex s cid + 1)\<rparr>
                else s);
          pl = ChatP \<lparr>p_runId = cid, p_sessionKey = sk, p_seq = sq,
                      p_state = (if phase = PhaseStart then ToolStart else ToolEnd),
                      p_messageIndex = None, p_message = None, p_errorMessage = None,
                      p_tool = Some toolName\<rparr>
      in (s1, [Broadcast ''chat'' pl False, NodeSendToSession sk ''chat'' pl]))"

definition emitChatDelta ::
  "int \<Rightarrow> string \<Rightarrow> string \<Rightarrow> int \<Rightarrow> string \<Rightarrow> RouterState \<Rightarrow> RouterState \<times> effect list"
where
  "emitChatDelta now sk cid sq txt s =
     (let messageIndex = currentIndex s cid;
          s1 = (if messageIndexByRun s cid = None
                then s\<lparr>messageIndexByRun := (messageIndexByRun s)(cid \<mapsto> 0)\<rparr>
                else s);
          pl = ChatP \<lparr>p_runId = cid, p_sessionKey = sk, p_seq = sq, p_state = Delta,
                      p_messageIndex = Some messageIndex,
                      p_message = Some \<lparr>role = ''assistant'',
                                         content = [\<lparr>item_type = ''text'', item_text = txt\<rparr>],
                                         timestamp = now\<rparr>,
                      p_errorMessage = None, p_tool = None\<rparr>
      in (s1, [Broadcast ''chat'' pl True, NodeSendToSession sk ''chat'' pl]))"

definition emitChatFinal ::
  "Env \<Rightarrow> string \<Rightarrow> string \<Rightarrow> int \<Rightarrow> job_state \<Rightarrow> jsval option \<Rightarrow> RouterState
     \<Rightarrow> RouterState \<times> effect list"
where
  "emitChatFinal env sk cid sq jobState err s =
     (let s1 = s\<lparr>messageIndexByRun := (messageIndexByRun s)(cid := None)\<rparr>
      in if jobState = JobDone
         then (let pl = ChatP \<lparr>p_runId = cid, p_sessionKey = sk, p_seq = sq, p_state = Final,
                               p_messageIndex = None, p_message = None, p_errorMessage = None,
                               p_tool = None\<rparr>
               in (s1, [Broadcast ''chat'' pl False, NodeSendToSession sk ''chat'' pl]))
         else (let pl = ChatP \<lparr>p_runId = cid, p_sessionKey = sk, p_seq = sq, p_state = Error,
                               p_messageIndex = None, p_message = None,
                               p_errorMessage =
                                 (case err of
                                    Some v \<Rightarrow> if truthy_val err then Some (formatForLog env v) else None
                                  | None \<Rightarrow> None),
                               p_tool = None\<rparr>
               in (s1, [Broadcast ''chat'' pl False, NodeSendToSession sk ''chat'' pl])))"

definition shouldEmitToolEvents :: "Env \<Rightarrow> string \<Rightarrow> string option \<Rightarrow> bool" where
  "shouldEmitToolEvents env rid sk =
     (let runVerbose = runVerboseLevel env rid
      in if truthy runVerbose then runVerbose = Some ''on''
         else (case sk of
                 None \<Rightarrow> False
               | Some k \<Rightarrow>
                   if k = [] then False
                   else (case loadSessionEntry env k of
                           None \<Rightarrow> False
                         | Some (sessionVerbose, defaultVerbose) \<Rightarrow>
                             if truthy sessionVerbose then sessionVerbose = Some ''on''
                             else defaultVerbose = Some ''on'')))"

section \<open>The event handler returned by createAgentEventHandler\<close>

text \<open>The local constants of the handler, each as a function of the state it reads.\<close>

definition chatLinkOf :: "RouterState \<Rightarrow> AgentEventPayload \<Rightarrow> ChatRunEntry option" where
  "chatLinkOf s evt = peek (registry s) (runId evt)"

definition sessionKeyOf :: "Env \<Rightarrow> RouterState \<Rightarrow> AgentEventPayload \<Rightarrow> string option" where
  "sessionKeyOf env s evt =
     (case chatLinkOf s evt of
        Some link \<Rightarrow> Some (sessionKey link)
      | None \<Rightarrow> resolveSessionKeyForRun env (runId evt))"

definition clientRunIdOf :: "RouterState \<Rightarrow> AgentEventPayload \<Rightarrow> string" where
  "clientRunIdOf s evt =
     (case chatLinkOf s evt of Some link \<Rightarrow> clientRunId link | None \<Rightarrow> runId evt)"

definition isAborted :: "RouterState \<Rightarrow> AgentEventPayload \<Rightarrow> bool" where
  "isAborted s evt \<longleftrightarrow>
     abortedRuns s (clientRunIdOf s evt) \<noteq> None \<or> abortedRuns s (runId evt) \<noteq> None"

definition lastSeq :: "RouterState \<Rightarrow> AgentEventPayload \<Rightarrow> int" where
  "lastSeq s evt = (case agentRunSeq s (runId evt) of Some n \<Rightarrow> n | None \<Rightarrow> 0)"

definition skipDetailedToolBroadcast :: "Env \<Rightarrow> RouterState \<Rightarrow> AgentEventPayload \<Rightarrow> bool" where
  "skipDetailedToolBroadcast env s evt \<longleftrightarrow>
     stream evt = ''tool'' \<and> \<not> shouldEmitToolEvents env (runId evt) (sessionKeyOf env s evt)"

definition lifecyclePhase :: "AgentEventPayload \<Rightarrow> string option" where
  "lifecyclePhase evt =
     (if stream evt = ''lifecycle'' then str_field (data evt) ''phase'' else None)"

definition isTerminal :: "AgentEventPayload \<Rightarrow> bool" where
  "isTerminal evt \<longleftrightarrow> lifecyclePhase evt = Some ''end'' \<or> lifecyclePhase evt = Some ''error''"

definition seqGapPayload :: "Env \<Rightarrow> int \<Rightarrow> RouterState \<Rightarrow> AgentEventPayload \<Rightarrow> payload" where
  "seqGapPayload env now s evt =
     DiagP \<lparr>g_runId = runId evt, g_stream = ''error'', g_ts = now,
            g_sessionKey = sessionKeyOf env s evt, g_reason = ''seq gap'',
            g_expected = lastSeq s evt + 1, g_received = seq evt\<rparr>"

text \<open>
  The body of \<open>if (sessionKey) { ... }\<close>. The state \<open>s0\<close> is the one the handler was
  entered with, from which \<open>chatLink\<close>, \<open>clientRunId\<close> and \<open>isAborted\<close> were computed;
  \<open>s\<close> is the current one. The third component of the result says whether the handler
  returned early (the \<open>return\<close> after a failed \<open>shift\<close>).
\<close>

definition chatDispatch ::
  "Env \<Rightarrow> int \<Rightarrow> RouterState \<Rightarrow> string \<Rightarrow> payload \<Rightarrow> bool \<Rightarrow> AgentEventPayload \<Rightarrow> RouterState
     \<Rightarrow> RouterState \<times> effect list \<times> bool"
where
  "chatDispatch env now s0 sk agentPayload skip evt s =
     (let chatLink = chatLinkOf s0 evt;
          cid = clientRunIdOf s0 evt;
          aborted = isAborted s0 evt;
          fwd = (if \<not> skip then [NodeSendToSession sk ''agent'' agentPayload] else []);
          job = (if lifecyclePhase evt = Some ''error'' then JobError else JobDone)
      in if \<not> aborted \<and> stream evt = ''assistant'' \<and> str_field (data evt) ''text'' \<noteq> None
         then (case str_field (data evt) ''text'' of
                 Some txt \<Rightarrow>
                   (let (s', fx) = emitChatDelta now sk cid (seq evt) txt s in (s', fwd @ fx, False))
               | None \<Rightarrow> (s, fwd, False))
         else if \<not> aborted \<and> stream evt = ''tool''
                 \<and> str_field (data evt) ''phase'' \<noteq> None \<and> str_field (data evt) ''name'' \<noteq> None
         then (case (str_field (data evt) ''phase'', str_field (data evt) ''name'') of
                 (Some toolPhase, Some toolName) \<Rightarrow>
                   if toolPhase = ''start''
                   then (let (s', fx) = emitToolEvent sk cid (seq evt) PhaseStart toolName s
                         in (s', fwd @ fx, False))
                   else if toolPhase = ''result''
                   then (let (s', fx) = emitToolEvent sk cid (seq evt) PhaseEnd toolName s
                         in (s', fwd @ fx, False))
                   else (s, fwd, False)
               | _ \<Rightarrow> (s, fwd, False))
         else if \<not> aborted \<and> isTerminal evt
         then (case chatLink of
                 Some link \<Rightarrow>
                   (case shift (registry s) (runId evt) of
                      (None, reg) \<Rightarrow>
                        (s\<lparr>registry := reg\<rparr>, fwd @ [ClearAgentRunContext (runId evt)], True)
                    | (Some finished, reg) \<Rightarrow>
                        (let (s', fx) = emitChatFinal env (sessionKey finished) (clientRunId finished)
                                          (seq evt) job (data evt ''error'') (s\<lparr>registry := reg\<rparr>)
                         in (s', fwd @ fx, False)))
               | None \<Rightarrow>
                   (let (s', fx) = emitChatFinal env sk (runId evt) (seq evt) job
                                     (data evt ''error'') s
                    in (s', fwd @ fx, False)))
         else if aborted \<and> isTerminal evt
         then (let s1 = s\<lparr>abortedRuns := ((abortedRuns s)(cid := None))(runId evt := None)\<rparr>;
                   s2 = s1\<lparr>messageIndexByRun := (messageIndexByRun s1)(cid := None)\<rparr>;
                   s3 = (if chatLink \<noteq> None
                         then s2\<lparr>registry := snd (remove (registry s2) (runId evt) cid (Some sk))\<rparr>
                         else s2)
               in (s3, fwd, False))
         else (s, fwd, False))"

text \<open>
  One call of the handler: the state after it and the calls it made, in order. \<open>now\<close>
  is the reading of \<open>Date.now()\<close> during the call.
\<close>

definition handleAgentEvent ::
  "Env \<Rightarrow> int \<Rightarrow> RouterState \<Rightarrow> AgentEventPayload \<Rightarrow> RouterState \<times> effect list"
where
  "handleAgentEvent env now s evt =
     (let sk = sessionKeyOf env s evt;
          agentPayload = AgentP evt (if truthy sk then sk else None);
          last = lastSeq s evt;
          skip = skipDetailedToolBroadcast env s evt;
          s1 = (if skip then s\<lparr>agentRunSeq := (agentRunSeq s)(runId evt \<mapsto> seq evt)\<rparr> else s);
          gapfx = (if seq evt \<noteq> last + 1
                   then [Broadcast ''agent'' (seqGapPayload env now s evt) False] else []);
          s2 = s1\<lparr>agentRunSeq := (agentRunSeq s1)(runId evt \<mapsto> seq evt)\<rparr>;
          rawfx = (if \<not> skip then [Broadcast ''agent'' agentPayload False] else []);
          (s3, chatfx, returned) =
             (case sk of
                Some k \<Rightarrow> if k \<noteq> [] then chatDispatch env now s k agentPayload skip evt s2
                          else (s2, [], False)
              | None \<Rightarrow> (s2, [], False));
          clearfx = (if \<not> returned \<and> isTerminal evt then [ClearAgentRunContext (runId evt)] else [])
      in (s3, gapfx @ rawfx @ chatfx @ clearfx))"

text \<open>A feed of events, each with the clock reading of its handling, run through the handler.\<close>

fun runEvents ::
  "Env \<Rightarrow> RouterState \<Rightarrow> (int \<times> AgentEventPayload) list \<Rightarrow> RouterState \<times> effect list"
where
  "runEvents env s [] = (s, [])"
| "runEvents env s ((now, evt) # rest) =
     (let (s1, fx1) = handleAgentEvent env now s evt;
          (s2, fx2) = runEvents env s1 rest
      in (s2, fx1 @ fx2))"

text \<open>Classification of what the handler emitted.\<close>

fun isChatNotification :: "effect \<Rightarrow> bool" where
  "isChatNotification (Broadcast ch pl d) = (ch = ''chat'')"
| "isChatNotification (NodeSendToSession k ch pl) = (ch = ''chat'')"
| "isChatNotification (ClearAgentRunContext r) = False"

text \<open>The diagnostic object carried by a call, if it carries one.\<close>

fun seqGapOf :: "effect \<Rightarrow> SeqGapPayload option" where
  "seqGapOf (Broadcast ch (DiagP g) d) = Some g"
| "seqGapOf (NodeSendToSession k ch (DiagP g)) = Some g"
| "seqGapOf other = None"

definition gapsFor :: "string \<Rightarrow> effect list \<Rightarrow> SeqGapPayload list" where
  "gapsFor r fx = filter (\<lambda>g. g_runId g = r) (List.map_filter seqGapOf fx)"

text \<open>The chat payload broadcast by a call, if it is a broadcast of one.\<close>

fun chatBroadcastOf :: "effect \<Rightarrow> ChatPayload option" where
  "chatBroadcastOf (Broadcast ch (ChatP cp) d) = Some cp"
| "chatBroadcastOf other = None"

definition isFinalOrError :: "effect \<Rightarrow> bool" where
  "isFinalOrError x \<longleftrightarrow>
     (case chatBroadcastOf x of
        Some cp \<Rightarrow> p_state cp = Final \<or> p_state cp = Error
      | None \<Rightarrow> False)"

text \<open>The message indices of the delta notifications broadcast for client run \<open>c\<close>.\<close>

definition deltaIndices :: "string \<Rightarrow> effect list \<Rightarrow> int option list" where
  "deltaIndices c fx =
     map p_messageIndex
       (filter (\<lambda>cp. p_state cp = Delta \<and> p_runId cp = c) (List.map_filter chatBroadcastOf fx))"

text \<open>
  Classification of an incoming event, with the handler's own tests: a delta is an
  assistant event with a string \<open>text\<close>; a tool start is a tool event whose \<open>phase\<close> is
  the string \<open>start\<close> and whose \<open>name\<close> is a string (the handler requires both before
  it calls \<open>emitToolEvent\<close>).
\<close>

definition isDelta :: "AgentEventPayload \<Rightarrow> bool" where
  "isDelta evt \<longleftrightarrow> stream evt = ''assistant'' \<and> str_field (data evt) ''text'' \<noteq> None"

definition isToolStart :: "AgentEventPayload \<Rightarrow> bool" where
  "isToolStart evt \<longleftrightarrow>
     stream evt = ''tool'' \<and> str_field (data evt) ''phase'' = Some ''start''
       \<and> str_field (data evt) ''name'' \<noteq> None"

text \<open>
  An event arriving in state \<open>s\<close> belongs to client run \<open>c\<close>, the run is not aborted and
  its session key resolves.
\<close>

definition observes :: "Env \<Rightarrow> RouterState \<Rightarrow> string \<Rightarrow> AgentEventPayload \<Rightarrow> bool" where
  "observes env s c evt \<longleftrightarrow>
     truthy (sessionKeyOf env s evt) \<and> \<not> isAborted s evt \<and> clientRunIdOf s evt = c"

text \<open>A terminal lifecycle event that the handler attributes to client run \<open>c\<close>.\<close>

definition ends :: "Env \<Rightarrow> RouterState \<Rightarrow> string \<Rightarrow> AgentEventPayload \<Rightarrow> bool" where
  "ends env s c evt \<longleftrightarrow>
     isTerminal evt \<and> truthy (sessionKeyOf env s evt) \<and> clientRunIdOf s evt = c"

text \<open>
  Along a feed started in state \<open>s\<close>: the number of tool starts observed for client run
  \<open>c\<close>, and whether no event of the feed ends that run.
\<close>

fun toolStarts :: "Env \<Rightarrow> string \<Rightarrow> RouterState \<Rightarrow> (int \<times> AgentEventPayload) list \<Rightarrow> nat" where
  "toolStarts env c s [] = 0"
| "toolStarts env c s ((now, evt) # rest) =
     (if observes env s c evt \<and> isToolStart evt then 1 else 0)
       + toolStarts env c (fst (handleAgentEvent env now s evt)) rest"

fun noEnd :: "Env \<Rightarrow> string \<Rightarrow> RouterState \<Rightarrow> (int \<times> AgentEventPayload) list \<Rightarrow> bool" where
  "noEnd env c s [] = True"
| "noEnd env c s ((now, evt) # rest) =
     (\<not> ends env s c evt \<and> noEnd env c (fst (handleAgentEvent env now s evt)) rest)"

text \<open>
  The guard of the handler's last branch: the run is aborted, the event is terminal and
  the session key resolved, so that the branch is reached.
\<close>

definition abortedCleanup :: "Env \<Rightarrow> RouterState \<Rightarrow> AgentEventPayload \<Rightarrow> bool" where
  "abortedCleanup env s evt \<longleftrightarrow>
     truthy (sessionKeyOf env s evt) \<and> isAborted s evt \<and> isTerminal evt"

text \<open>The \<open>seq\<close> values of the events of run \<open>r\<close> in a feed, in order of arrival.\<close>

definition seqsOf :: "string \<Rightarrow> (int \<times> AgentEventPayload) list \<Rightarrow> int list" where
  "seqsOf r evs = map seq (filter (\<lambda>e. runId e = r) (map snd evs))"

section \<open>Example inputs\<close>

definition exampleEnv :: Env where
  "exampleEnv =
     \<lparr>resolveSessionKeyForRun = (\<lambda>r. if r = ''r1'' then Some ''s1'' else None),
      formatForLog = (\<lambda>v. ''error''),
      runVerboseLevel = (\<lambda>r. None),
      loadSessionEntry = (\<lambda>k. None)\<rparr>"

definition deltaEvent :: "string \<Rightarrow> int \<Rightarrow> string \<Rightarrow> AgentEventPayload" where
  "deltaEvent r n txt =
     \<lparr>runId = r, seq = n, stream = ''assistant'', ts = 0, data = [''text'' \<mapsto> JString txt]\<rparr>"

definition toolEvent :: "string \<Rightarrow> int \<Rightarrow> string \<Rightarrow> string \<Rightarrow> AgentEventPayload" where
  "toolEvent r n ph nm =
     \<lparr>runId = r, seq = n, stream = ''tool'', ts = 0,
      data = [''phase'' \<mapsto> JString ph, ''name'' \<mapsto> JString nm]\<rparr>"

definition lifecycleEvent :: "string \<Rightarrow> int \<Rightarrow> string \<Rightarrow> AgentEventPayload" where
  "lifecycleEvent r n ph =
     \<lparr>runId = r, seq = n, stream = ''lifecycle'', ts = 0, data = [''phase'' \<mapsto> JString ph]\<rparr>"

section \<open>Client reconciler (handleChatEvent)\<close>

record StreamingMessage =
  index :: int
  msg_text :: string
  startedAt :: int

text \<open>
  The client's state. The types of the gateway client and of a history message are not
  looked into by \<open>handleChatEvent\<close> and stay parameters.
\<close>

record ('c, 'm) ChatState =
  client :: "'c option"
  connected :: bool
  cs_sessionKey :: string
  chatLoading :: bool
  chatMessages :: "'m list"
  chatThinkingLevel :: "string option"
  chatSending :: bool
  chatMessage :: string
  chatRunId :: "string option"
  chatStreamMessages :: "StreamingMessage list"
  chatToolsRunning :: int
  chatCurrentTool :: "string option"
  lastError :: "string option"

text \<open>The notification as the client declares it; \<open>ev_tool\<close> is \<open>tool?.name\<close>.\<close>

record 'm ChatEventPayload =
  ev_runId :: string
  ev_sessionKey :: string
  ev_state :: chat_state
  ev_messageIndex :: "int option"
  ev_message :: "'m option"
  ev_errorMessage :: "string option"
  ev_tool :: "string option"

text \<open>
  \<open>existing.text = text\<close> on the object that \<open>find\<close> returned: the first message of
  the array with the given index gets the new text, in place.
\<close>

fun setTextOfFirst :: "int \<Rightarrow> string \<Rightarrow> StreamingMessage list \<Rightarrow> StreamingMessage list" where
  "setTextOfFirst i t [] = []"
| "setTextOfFirst i t (m # ms) =
     (if index m = i then m\<lparr>msg_text := t\<rparr> # ms else m # setTextOfFirst i t ms)"

text \<open>\<open>n || 0\<close> on a number.\<close>

definition orZero :: "int \<Rightarrow> int" where
  "orZero n = (if n \<noteq> 0 then n else 0)"

text \<open>
  \<open>handleChatEvent(state, payload)\<close>: the value returned (\<open>None\<close> for \<open>null\<close>) and the
  state after the call. \<open>extractText\<close> is the imported helper, whose result is a string
  or \<open>null\<close>; \<open>now\<close> is the reading of \<open>Date.now()\<close>. The array sort of the source is
  stable, as \<open>sort_key\<close> is.
\<close>

definition handleChatEvent ::
  "('m option \<Rightarrow> string option) \<Rightarrow> int \<Rightarrow> ('c, 'm) ChatState \<Rightarrow> 'm ChatEventPayload option
     \<Rightarrow> chat_state option \<times> ('c, 'm) ChatState"
where
  "handleChatEvent extractText now state payload =
     (case payload of
        None \<Rightarrow> (None, state)
      | Some p \<Rightarrow>
          if ev_sessionKey p \<noteq> cs_sessionKey state then (None, state)
          else if ev_runId p \<noteq> [] \<and> truthy (chatRunId state)
                  \<and> Some (ev_runId p) \<noteq> chatRunId state
          then (None, state)
          else
            (Some (ev_state p),
             (case ev_state p of
                Delta \<Rightarrow>
                  (case extractText (ev_message p) of
                     None \<Rightarrow> state
                   | Some txt \<Rightarrow>
                       let messageIndex = (case ev_messageIndex p of Some i \<Rightarrow> i | None \<Rightarrow> 0)
                       in (case find (\<lambda>m. index m = messageIndex) (chatStreamMessages state) of
                             Some existing \<Rightarrow>
                               state\<lparr>chatStreamMessages :=
                                        setTextOfFirst messageIndex txt (chatStreamMessages state)\<rparr>
                           | None \<Rightarrow>
                               state\<lparr>chatStreamMessages :=
                                        sort_key index
                                          (chatStreamMessages state
                                             @ [\<lparr>index = messageIndex, msg_text = txt,
                                                 startedAt = now\<rparr>])\<rparr>))
              | ToolStart \<Rightarrow>
                  state\<lparr>chatToolsRunning := orZero (chatToolsRunning state) + 1,
                         chatCurrentTool := ev_tool p\<rparr>
              | ToolEnd \<Rightarrow>
                  (let n = max 0 (orZero (chatToolsRunning state) - 1)
                   in state\<lparr>chatToolsRunning := n,
                            chatCurrentTool := (if n = 0 then None else chatCurrentTool state)\<rparr>)
              | Final \<Rightarrow>
                  state\<lparr>chatStreamMessages := [], chatRunId := None, chatToolsRunning := 0,
                         chatCurrentTool := None\<rparr>
              | Aborted \<Rightarrow>
                  state\<lparr>chatStreamMessages := [], chatRunId := None, chatToolsRunning := 0,
                         chatCurrentTool := None\<rparr>
              | Error \<Rightarrow>
                  state\<lparr>chatStreamMessages := [], chatRunId := None, chatToolsRunning := 0,
                         chatCurrentTool := None,
                         lastError := Some (case ev_errorMessage p of
                                              Some msg \<Rightarrow> msg
                                            | None \<Rightarrow> ''chat error'')\<rparr>)))"

definition exampleChatState :: "(unit, string) ChatState" where
  "exampleChatState =
     \<lparr>client = Some (), connected = True, cs_sessionKey = ''s1'', chatLoading = False,
      chatMessages = [], chatThinkingLevel = None, chatSending = False, chatMessage = [],
      chatRunId = Some ''r1'',
      chatStreamMessages = [\<lparr>index = 1, msg_text = ''Found'', startedAt = 3\<rparr>],
      chatToolsRunning = 0, chatCurrentTool = None, lastError = None\<rparr>"

definition exampleDelta :: "int \<Rightarrow> string \<Rightarrow> string ChatEventPayload" where
  "exampleDelta i t =
     \<lparr>ev_runId = ''r1'', ev_sessionKey = ''s1'', ev_state = Delta, ev_messageIndex = Some i,
      ev_message = Some t, ev_errorMessage = None, ev_tool = None\<rparr>"

section \<open>Tool card pairer (collectAndPairToolCards)\<close>

datatype card_kind = Call | Result

text \<open>
  Modelled from the spec: the type \<open>ToolCard\<close> is declared in \<open>../types/chat-types\<close>,
  which is not among the sources; the spec gives it as
  \<open>{ kind: call|result, id?, name, text? }\<close>.
\<close>

record ToolCard =
  kind :: card_kind
  card_id :: "string option"
  name :: string
  card_text :: "string option"

text \<open>
  The search of the loop body for one call card: by id when the call has a (non-empty)
  id, then by name; \<open>used\<close> is the set \<open>usedResults\<close> of consumed indices.
\<close>

definition findResult :: "ToolCard \<Rightarrow> ToolCard list \<Rightarrow> nat set \<Rightarrow> nat option" where
  "findResult call resultCards used =
     (let byId = (if truthy (card_id call)
                  then findIndex (\<lambda>r i. i \<notin> used \<and> card_id r = card_id call) resultCards
                  else None)
      in case byId of
           None \<Rightarrow> findIndex (\<lambda>r i. i \<notin> used \<and> name r = name call) resultCards
         | Some i \<Rightarrow> Some i)"

text \<open>The loop over the call cards: the cards pushed to \<open>paired\<close> and the final \<open>usedResults\<close>.\<close>

fun pairCalls :: "ToolCard list \<Rightarrow> ToolCard list \<Rightarrow> nat set \<Rightarrow> ToolCard list \<times> nat set" where
  "pairCalls [] resultCards used = ([], used)"
| "pairCalls (call # calls) resultCards used =
     (case findResult call resultCards used of
        Some i \<Rightarrow>
          (let (paired, used') = pairCalls calls resultCards (insert i used)
           in (call\<lparr>card_text := card_text (resultCards ! i)\<rparr> # paired, used'))
      | None \<Rightarrow>
          (let (paired, used') = pairCalls calls resultCards used
           in (call # paired, used')))"

text \<open>The last loop: the result cards whose index was not consumed, in order.\<close>

definition orphans :: "ToolCard list \<Rightarrow> nat set \<Rightarrow> ToolCard list" where
  "orphans resultCards used =
     map (\<lambda>i. resultCards ! i) (filter (\<lambda>i. i \<notin> used) [0..<length resultCards])"

definition pairToolCards :: "ToolCard list \<Rightarrow> ToolCard list \<Rightarrow> ToolCard list" where
  "pairToolCards callCards resultCards =
     (let (paired, used) = pairCalls callCards resultCards {}
      in paired @ orphans resultCards used)"

text \<open>
  The whole function; \<open>extractToolCards\<close> is the imported helper and a message is what
  it takes. A card whose kind is not \<open>call\<close> goes to the result cards.
\<close>

definition collectAndPairToolCards :: "('m \<Rightarrow> ToolCard list) \<Rightarrow> 'm list \<Rightarrow> ToolCard list" where
  "collectAndPairToolCards extractToolCards messages =
     (let cards = concat (map extractToolCards messages);
          callCards = filter (\<lambda>card. kind card = Call) cards;
          resultCards = filter (\<lambda>card. kind card \<noteq> Call) cards
      in pairToolCards callCards resultCards)"

section \<open>Properties of the registry\<close>

lemma findIndexFrom_none:
  "\<forall>x \<in> set xs. \<not> Q x \<Longrightarrow> findIndexFrom i (\<lambda>x j. Q x) xs = None"
  by (induction xs arbitrary: i) auto

lemma findIndexFrom_first:
  "\<forall>x \<in> set pre. \<not> Q x \<Longrightarrow> Q e \<Longrightarrow>
   findIndexFrom i (\<lambda>x j. Q x) (pre @ e # post) = Some (i + length pre)"
  by (induction pre arbitrary: i) auto

lemma findIndex_none:
  "\<forall>x \<in> set xs. \<not> Q x \<Longrightarrow> findIndex (\<lambda>x j. Q x) xs = None"
  by (simp add: findIndex_def findIndexFrom_none)

lemma findIndex_first:
  "\<forall>x \<in> set pre. \<not> Q x \<Longrightarrow> Q e \<Longrightarrow>
   findIndex (\<lambda>x j. Q x) (pre @ e # post) = Some (length pre)"
  using findIndexFrom_first [of pre Q e 0 post] by (simp add: findIndex_def)

text \<open>
  Claim C10. \<open>remove\<close> takes out and returns the first entry of the queue whose
  \<open>clientRunId\<close> equals the given one (and whose \<open>sessionKey\<close> equals the given one, when
  one is supplied), wherever it stands in the queue, the head included (\<open>pre = []\<close>);
  the other entries keep their order; the queue's key is deleted from the map when the
  queue becomes empty; and when the key has no queue or no entry matches, the result is
  \<open>undefined\<close> and the registry is unchanged.
\<close>

theorem remove_first_match:
  "(m k = Some (pre @ e # post) \<and> removeMatches cid sk e
      \<and> (\<forall>x \<in> set pre. \<not> removeMatches cid sk x)
    \<longrightarrow> remove m k cid sk =
          (Some e, if pre @ post = [] then m(k := None) else m(k \<mapsto> pre @ post)))
   \<and> (m k = Some (e # post) \<and> removeMatches cid sk e
    \<longrightarrow> remove m k cid sk = (Some e, if post = [] then m(k := None) else m(k \<mapsto> post)))
   \<and> ((\<forall>q. m k = Some q \<longrightarrow> (\<forall>x \<in> set q. \<not> removeMatches cid sk x))
    \<longrightarrow> remove m k cid sk = (None, m))"
proof (intro conjI impI)
  assume h: "m k = Some (pre @ e # post) \<and> removeMatches cid sk e
      \<and> (\<forall>x \<in> set pre. \<not> removeMatches cid sk x)"
  then have "findIndex (\<lambda>entry i. removeMatches cid sk entry) (pre @ e # post) = Some (length pre)"
    by (simp add: findIndex_first)
  with h show "remove m k cid sk =
          (Some e, if pre @ post = [] then m(k := None) else m(k \<mapsto> pre @ post))"
    by (simp add: remove_def Let_def)
next
  assume h: "m k = Some (e # post) \<and> removeMatches cid sk e"
  then have "findIndex (\<lambda>entry i. removeMatches cid sk entry) (e # post) = Some 0"
    by (simp add: findIndex_def)
  with h show "remove m k cid sk = (Some e, if post = [] then m(k := None) else m(k \<mapsto> post))"
    by (simp add: remove_def Let_def)
next
  assume h: "\<forall>q. m k = Some q \<longrightarrow> (\<forall>x \<in> set q. \<not> removeMatches cid sk x)"
  show "remove m k cid sk = (None, m)"
  proof (cases "m k")
    case None
    then show ?thesis by (simp add: remove_def)
  next
    case (Some q)
    with h have "findIndex (\<lambda>entry i. removeMatches cid sk entry) q = None"
      by (simp add: findIndex_none)
    with Some show ?thesis by (simp add: remove_def)
  qed
qed

theorem remove_first_match_witness:
  "remove [''ctx'' \<mapsto> [\<lparr>sessionKey = ''s1'', clientRunId = ''a''\<rparr>,
                        \<lparr>sessionKey = ''s1'', clientRunId = ''b''\<rparr>,
                        \<lparr>sessionKey = ''s2'', clientRunId = ''b''\<rparr>]] ''ctx'' ''b'' None
     = (Some \<lparr>sessionKey = ''s1'', clientRunId = ''b''\<rparr>,
        [''ctx'' \<mapsto> [\<lparr>sessionKey = ''s1'', clientRunId = ''a''\<rparr>,
                      \<lparr>sessionKey = ''s2'', clientRunId = ''b''\<rparr>]])
   \<and> remove [''ctx'' \<mapsto> [\<lparr>sessionKey = ''s1'', clientRunId = ''a''\<rparr>]] ''ctx'' ''a'' (Some ''s1'')
     = (Some \<lparr>sessionKey = ''s1'', clientRunId = ''a''\<rparr>, Map.empty)
   \<and> remove [''ctx'' \<mapsto> [\<lparr>sessionKey = ''s1'', clientRunId = ''a''\<rparr>]] ''ctx'' ''a'' (Some ''s2'')
     = (None, [''ctx'' \<mapsto> [\<lparr>sessionKey = ''s1'', clientRunId = ''a''\<rparr>]])"
proof (intro conjI)
  show "remove [''ctx'' \<mapsto> [\<lparr>sessionKey = ''s1'', clientRunId = ''a''\<rparr>,
                        \<lparr>sessionKey = ''s1'', clientRunId = ''b''\<rparr>,
                        \<lparr>sessionKey = ''s2'', clientRunId = ''b''\<rparr>]] ''ctx'' ''b'' None
     = (Some \<lparr>sessionKey = ''s1'', clientRunId = ''b''\<rparr>,
        [''ctx'' \<mapsto> [\<lparr>sessionKey = ''s1'', clientRunId = ''a''\<rparr>,
                      \<lparr>sessionKey = ''s2'', clientRunId = ''b''\<rparr>]])"
    using remove_first_match
      [of "[''ctx'' \<mapsto> [\<lparr>sessionKey = ''s1'', clientRunId = ''a''\<rparr>,
                        \<lparr>sessionKey = ''s1'', clientRunId = ''b''\<rparr>,
                        \<lparr>sessionKey = ''s2'', clientRunId = ''b''\<rparr>]]" "''ctx''"
          "[\<lparr>sessionKey = ''s1'', clientRunId = ''a''\<rparr>]"
          "\<lparr>sessionKey = ''s1'', clientRunId = ''b''\<rparr>"
          "[\<lparr>sessionKey = ''s2'', clientRunId = ''b''\<rparr>]" "''b''" None]
    by (simp add: removeMatches_def)
  show "remove [''ctx'' \<mapsto> [\<lparr>sessionKey = ''s1'', clientRunId = ''a''\<rparr>]] ''ctx'' ''a'' (Some ''s1'')
     = (Some \<lparr>sessionKey = ''s1'', clientRunId = ''a''\<rparr>, Map.empty)"
    using remove_first_match
      [of "[''ctx'' \<mapsto> [\<lparr>sessionKey = ''s1'', clientRunId = ''a''\<rparr>]]" "''ctx''"
          "[]" "\<lparr>sessionKey = ''s1'', clientRunId = ''a''\<rparr>" "[]" "''a''" "Some ''s1''"]
    by (simp add: removeMatches_def)
  show "remove [''ctx'' \<mapsto> [\<lparr>sessionKey = ''s1'', clientRunId = ''a''\<rparr>]] ''ctx'' ''a'' (Some ''s2'')
     = (None, [''ctx'' \<mapsto> [\<lparr>sessionKey = ''s1'', clientRunId = ''a''\<rparr>]])"
    using remove_first_match
      [of "[''ctx'' \<mapsto> [\<lparr>sessionKey = ''s1'', clientRunId = ''a''\<rparr>]]" "''ctx''"
          "[]" "\<lparr>sessionKey = ''s1'', clientRunId = ''a''\<rparr>" "[]" "''a''" "Some ''s2''"]
    by (simp add: removeMatches_def)
qed

section \<open>Properties of the event handler\<close>

lemmas router_eval = handleAgentEvent_def chatDispatch_def Let_def split_beta
  sessionKeyOf_def chatLinkOf_def clientRunIdOf_def isAborted_def lastSeq_def
  skipDetailedToolBroadcast_def shouldEmitToolEvents_def lifecyclePhase_def isTerminal_def
  seqGapPayload_def emitToolEvent_def emitChatDelta_def emitChatFinal_def currentIndex_def
  peek_def shift_def remove_def findIndex_def removeMatches_def str_field_def
  exampleEnv_def initialRouterState_def deltaEvent_def toolEvent_def lifecycleEvent_def

lemma emitToolEvent_snd:
  "snd (emitToolEvent sk cid sq ph tn s) =
     [Broadcast ''chat'' (ChatP \<lparr>p_runId = cid, p_sessionKey = sk, p_seq = sq,
                      p_state = (if ph = PhaseStart then ToolStart else ToolEnd),
                      p_messageIndex = None, p_message = None, p_errorMessage = None,
                      p_tool = Some tn\<rparr>) False,
      NodeSendToSession sk ''chat'' (ChatP \<lparr>p_runId = cid, p_sessionKey = sk, p_seq = sq,
                      p_state = (if ph = PhaseStart then ToolStart else ToolEnd),
                      p_messageIndex = None, p_message = None, p_errorMessage = None,
                      p_tool = Some tn\<rparr>)]"
  by (simp add: emitToolEvent_def Let_def)

lemma emitToolEvent_fst:
  "fst (emitToolEvent sk cid sq ph tn s) =
     (if ph = PhaseStart
      then s\<lparr>messageIndexByRun := (messageIndexByRun s)(cid \<mapsto> currentIndex s cid + 1)\<rparr>
      else s)"
  by (simp add: emitToolEvent_def Let_def)

lemma emitChatDelta_snd:
  "snd (emitChatDelta now sk cid sq txt s) =
     [Broadcast ''chat'' (ChatP \<lparr>p_runId = cid, p_sessionKey = sk, p_seq = sq, p_state = Delta,
                      p_messageIndex = Some (currentIndex s cid),
                      p_message = Some \<lparr>role = ''assistant'',
                                         content = [\<lparr>item_type = ''text'', item_text = txt\<rparr>],
                                         timestamp = now\<rparr>,
                      p_errorMessage = None, p_tool = None\<rparr>) True,
      NodeSendToSession sk ''chat'' (ChatP \<lparr>p_runId = cid, p_sessionKey = sk, p_seq = sq, p_state = Delta,
                      p_messageIndex = Some (currentIndex s cid),
                      p_message = Some \<lparr>role = ''assistant'',
                                         content = [\<lparr>item_type = ''text'', item_text = txt\<rparr>],
                                         timestamp = now\<rparr>,
                      p_errorMessage = None, p_tool = None\<rparr>)]"
  by (simp add: emitChatDelta_def Let_def)

lemma emitChatDelta_fst:
  "fst (emitChatDelta now sk cid sq txt s) =
     (if messageIndexByRun s cid = None
      then s\<lparr>messageIndexByRun := (messageIndexByRun s)(cid \<mapsto> 0)\<rparr> else s)"
  by (simp add: emitChatDelta_def Let_def)

lemma emitChatFinal_fst:
  "fst (emitChatFinal env sk cid sq js err s) =
     s\<lparr>messageIndexByRun := (messageIndexByRun s)(cid := None)\<rparr>"
  by (simp add: emitChatFinal_def Let_def)

lemma emitChatFinal_snd:
  "snd (emitChatFinal env sk cid sq js err s) =
     [Broadcast ''chat'' (ChatP \<lparr>p_runId = cid, p_sessionKey = sk, p_seq = sq,
                      p_state = (if js = JobDone then Final else Error),
                      p_messageIndex = None, p_message = None,
                      p_errorMessage =
                        (if js = JobDone then None
                         else (case err of
                                 Some v \<Rightarrow> if truthy_val err then Some (formatForLog env v) else None
                               | None \<Rightarrow> None)),
                      p_tool = None\<rparr>) False,
      NodeSendToSession sk ''chat'' (ChatP \<lparr>p_runId = cid, p_sessionKey = sk, p_seq = sq,
                      p_state = (if js = JobDone then Final else Error),
                      p_messageIndex = None, p_message = None,
                      p_errorMessage =
                        (if js = JobDone then None
                         else (case err of
                                 Some v \<Rightarrow> if truthy_val err then Some (formatForLog env v) else None
                               | None \<Rightarrow> None)),
                      p_tool = None\<rparr>)]"
  by (simp add: emitChatFinal_def Let_def)

lemma drop_chatDispatch:
  "Broadcast ch pl d \<in> set (fst (snd (chatDispatch env now s0 sk ap skip evt s))) \<Longrightarrow>
   ch = ''chat'' \<and> (\<exists>cp. pl = ChatP cp \<and> (d \<longleftrightarrow> p_state cp = Delta) \<and> p_state cp \<noteq> Aborted)"
  unfolding chatDispatch_def Let_def split_beta
  by (auto simp: emitToolEvent_snd emitChatDelta_snd emitChatFinal_snd
      split: if_splits option.splits)

text \<open>
  Claim C8. Every broadcast the handler makes carries the drop-if-slow option exactly
  when its payload is a chat notification in state \<open>delta\<close>: tool-start, tool-end, final
  and error notifications, which are the only other chat notifications it broadcasts,
  go out on the chat channel without the option, and so do the forwarded event and the
  diagnostic on the agent channel.
\<close>

theorem droppable_iff_delta:
  "Broadcast ch pl d \<in> set (snd (handleAgentEvent env now s evt)) \<Longrightarrow>
   (case pl of
      ChatP cp \<Rightarrow> ch = ''chat'' \<and> (d \<longleftrightarrow> p_state cp = Delta) \<and> p_state cp \<noteq> Aborted
    | AgentP e k \<Rightarrow> ch = ''agent'' \<and> \<not> d
    | DiagP g \<Rightarrow> ch = ''agent'' \<and> \<not> d)"
  unfolding handleAgentEvent_def Let_def split_beta
  by (auto simp: seqGapPayload_def split: if_splits option.splits payload.splits
      dest: drop_chatDispatch)

theorem droppable_iff_delta_witness:
  "Broadcast ''chat''
     (ChatP \<lparr>p_runId = ''r1'', p_sessionKey = ''s1'', p_seq = 1, p_state = Delta,
             p_messageIndex = Some 0,
             p_message = Some \<lparr>role = ''assistant'',
                                content = [\<lparr>item_type = ''text'', item_text = ''Hello''\<rparr>],
                                timestamp = 5\<rparr>,
             p_errorMessage = None, p_tool = None\<rparr>) True
     \<in> set (snd (handleAgentEvent exampleEnv 5 initialRouterState (deltaEvent ''r1'' 1 ''Hello'')))
   \<and> Broadcast ''chat''
     (ChatP \<lparr>p_runId = ''r1'', p_sessionKey = ''s1'', p_seq = 1, p_state = ToolStart,
             p_messageIndex = None, p_message = None, p_errorMessage = None,
             p_tool = Some ''search''\<rparr>) False
     \<in> set (snd (handleAgentEvent exampleEnv 5 initialRouterState
                    (toolEvent ''r1'' 1 ''start'' ''search'')))
   \<and> Broadcast ''chat''
     (ChatP \<lparr>p_runId = ''r1'', p_sessionKey = ''s1'', p_seq = 1, p_state = ToolStart,
             p_messageIndex = None, p_message = None, p_errorMessage = None,
             p_tool = Some ''search''\<rparr>) True
     \<notin> set (snd (handleAgentEvent exampleEnv 5 initialRouterState
                    (toolEvent ''r1'' 1 ''start'' ''search'')))"
proof (intro conjI notI)
  show "Broadcast ''chat''
     (ChatP \<lparr>p_runId = ''r1'', p_sessionKey = ''s1'', p_seq = 1, p_state = Delta,
             p_messageIndex = Some 0,
             p_message = Some \<lparr>role = ''assistant'',
                                content = [\<lparr>item_type = ''text'', item_text = ''Hello''\<rparr>],
                                timestamp = 5\<rparr>,
             p_errorMessage = None, p_tool = None\<rparr>) True
     \<in> set (snd (handleAgentEvent exampleEnv 5 initialRouterState (deltaEvent ''r1'' 1 ''Hello'')))"
    by (simp add: router_eval)
  show "Broadcast ''chat''
     (ChatP \<lparr>p_runId = ''r1'', p_sessionKey = ''s1'', p_seq = 1, p_state = ToolStart,
             p_messageIndex = None, p_message = None, p_errorMessage = None,
             p_tool = Some ''search''\<rparr>) False
     \<in> set (snd (handleAgentEvent exampleEnv 5 initialRouterState
                    (toolEvent ''r1'' 1 ''start'' ''search'')))"
    by (simp add: router_eval)
next
  assume "Broadcast ''chat''
     (ChatP \<lparr>p_runId = ''r1'', p_sessionKey = ''s1'', p_seq = 1, p_state = ToolStart,
             p_messageIndex = None, p_message = None, p_errorMessage = None,
             p_tool = Some ''search''\<rparr>) True
     \<in> set (snd (handleAgentEvent exampleEnv 5 initialRouterState
                    (toolEvent ''r1'' 1 ''start'' ''search'')))"
  from droppable_iff_delta [OF this] show False by simp
qed

lemma chatLinkOf_seq [simp]: "chatLinkOf (s\<lparr>agentRunSeq := a\<rparr>) evt = chatLinkOf s evt"
  by (simp add: chatLinkOf_def)

lemma sessionKeyOf_seq [simp]: "sessionKeyOf env (s\<lparr>agentRunSeq := a\<rparr>) evt = sessionKeyOf env s evt"
  by (simp add: sessionKeyOf_def)

lemma clientRunIdOf_seq [simp]: "clientRunIdOf (s\<lparr>agentRunSeq := a\<rparr>) evt = clientRunIdOf s evt"
  by (simp add: clientRunIdOf_def)

lemma isAborted_seq [simp]: "isAborted (s\<lparr>agentRunSeq := a\<rparr>) evt = isAborted s evt"
  by (simp add: isAborted_def)

lemma skip_seq [simp]:
  "skipDetailedToolBroadcast env (s\<lparr>agentRunSeq := a\<rparr>) evt = skipDetailedToolBroadcast env s evt"
  by (simp add: skipDetailedToolBroadcast_def)

lemma chatDispatch_s0_seq [simp]:
  "chatDispatch env now (s0\<lparr>agentRunSeq := a\<rparr>) sk ap skip evt s = chatDispatch env now s0 sk ap skip evt s"
  by (simp add: chatDispatch_def)

lemma chatDispatch_agentRunSeq:
  "agentRunSeq (fst (chatDispatch env now s0 sk ap skip evt s)) = agentRunSeq s"
  unfolding chatDispatch_def Let_def split_beta
  by (simp add: emitToolEvent_fst emitChatDelta_fst emitChatFinal_fst split: option.splits)

lemma handle_agentRunSeq:
  "agentRunSeq (fst (handleAgentEvent env now s evt)) = (agentRunSeq s)(runId evt \<mapsto> seq evt)"
  unfolding handleAgentEvent_def Let_def split_beta
  by (simp add: chatDispatch_agentRunSeq split: option.splits)

lemma seqGapOf_chatDispatch:
  "x \<in> set (fst (snd (chatDispatch env now s0 sk (AgentP e k) skip evt s))) \<Longrightarrow> seqGapOf x = None"
  unfolding chatDispatch_def Let_def split_beta
  by (auto simp: emitToolEvent_snd emitChatDelta_snd emitChatFinal_snd
      split: if_splits option.splits)

lemma map_filter_seqGap_none:
  "\<forall>x \<in> set xs. seqGapOf x = None \<Longrightarrow> List.map_filter seqGapOf xs = []"
  by (induction xs) (auto simp: List.map_filter_simps)

lemma handle_in_order_no_gap:
  "seq evt = lastSeq s evt + 1 \<Longrightarrow>
   List.map_filter seqGapOf (snd (handleAgentEvent env now s evt)) = []"
  unfolding handleAgentEvent_def Let_def split_beta
  by (rule map_filter_seqGap_none)
     (auto split: option.splits if_splits dest: seqGapOf_chatDispatch)

lemma lastSeq_upd [simp]:
  "lastSeq (s\<lparr>agentRunSeq := (agentRunSeq s)(runId evt \<mapsto> n)\<rparr>) evt = n"
  by (simp add: lastSeq_def)

lemma handle_gap_split:
  "seq evt \<noteq> lastSeq s evt + 1 \<Longrightarrow>
   handleAgentEvent env now s evt =
     (fst (handleAgentEvent env now (s\<lparr>agentRunSeq := (agentRunSeq s)(runId evt \<mapsto> seq evt - 1)\<rparr>) evt),
      Broadcast ''agent'' (seqGapPayload env now s evt) False
        # snd (handleAgentEvent env now (s\<lparr>agentRunSeq := (agentRunSeq s)(runId evt \<mapsto> seq evt - 1)\<rparr>) evt))"
  unfolding handleAgentEvent_def Let_def split_beta
  by (simp split: option.splits)

text \<open>
  Claim C2. When the \<open>seq\<close> of an incoming event differs from the last recorded \<open>seq\<close>
  of its run plus one (the last one being 0 when none is recorded), the calls of the
  handler carry exactly one diagnostic object, broadcast first on the agent channel,
  with \<open>reason = "seq gap"\<close>, \<open>expected = last + 1\<close> and \<open>received = seq\<close>; the event is
  not dropped: the remaining calls and the resulting state are those of handling the
  same event in order (with \<open>seq - 1\<close> recorded); and the run's counter is set to the
  received \<open>seq\<close>.
\<close>

theorem seq_gap_reported_once:
  "seq evt \<noteq> lastSeq s evt + 1 \<Longrightarrow>
   List.map_filter seqGapOf (snd (handleAgentEvent env now s evt)) =
     [\<lparr>g_runId = runId evt, g_stream = ''error'', g_ts = now,
       g_sessionKey = sessionKeyOf env s evt, g_reason = ''seq gap'',
       g_expected = lastSeq s evt + 1, g_received = seq evt\<rparr>]
   \<and> snd (handleAgentEvent env now s evt) =
       Broadcast ''agent'' (seqGapPayload env now s evt) False
         # snd (handleAgentEvent env now
                  (s\<lparr>agentRunSeq := (agentRunSeq s)(runId evt \<mapsto> seq evt - 1)\<rparr>) evt)
   \<and> fst (handleAgentEvent env now s evt) =
       fst (handleAgentEvent env now
              (s\<lparr>agentRunSeq := (agentRunSeq s)(runId evt \<mapsto> seq evt - 1)\<rparr>) evt)
   \<and> agentRunSeq (fst (handleAgentEvent env now s evt)) (runId evt) = Some (seq evt)"
proof -
  assume gap: "seq evt \<noteq> lastSeq s evt + 1"
  let ?s = "s\<lparr>agentRunSeq := (agentRunSeq s)(runId evt \<mapsto> seq evt - 1)\<rparr>"
  have inorder: "seq evt = lastSeq ?s evt + 1" by simp
  have none: "List.map_filter seqGapOf (snd (handleAgentEvent env now ?s evt)) = []"
    using inorder by (rule handle_in_order_no_gap)
  have split: "handleAgentEvent env now s evt =
     (fst (handleAgentEvent env now ?s evt),
      Broadcast ''agent'' (seqGapPayload env now s evt) False # snd (handleAgentEvent env now ?s evt))"
    using gap by (rule handle_gap_split)
  show ?thesis
    using none
    by (simp add: split [THEN arg_cong, of snd] split [THEN arg_cong, of fst]
         List.map_filter_simps seqGapPayload_def handle_agentRunSeq)
qed

theorem seq_gap_reported_once_witness:
  "seq (deltaEvent ''r1'' 3 ''Hi'') \<noteq> lastSeq initialRouterState (deltaEvent ''r1'' 3 ''Hi'') + 1
   \<and> List.map_filter seqGapOf
        (snd (handleAgentEvent exampleEnv 5 initialRouterState (deltaEvent ''r1'' 3 ''Hi''))) =
       [\<lparr>g_runId = ''r1'', g_stream = ''error'', g_ts = 5, g_sessionKey = Some ''s1'',
         g_reason = ''seq gap'', g_expected = 1, g_received = 3\<rparr>]
   \<and> agentRunSeq (fst (handleAgentEvent exampleEnv 5 initialRouterState (deltaEvent ''r1'' 3 ''Hi'')))
        ''r1'' = Some 3"
proof -
  have h: "seq (deltaEvent ''r1'' 3 ''Hi'') \<noteq> lastSeq initialRouterState (deltaEvent ''r1'' 3 ''Hi'') + 1"
    by (simp add: deltaEvent_def lastSeq_def initialRouterState_def)
  have k: "sessionKeyOf exampleEnv initialRouterState (deltaEvent ''r1'' 3 ''Hi'') = Some ''s1''"
    by (simp add: router_eval)
  have l: "lastSeq initialRouterState (deltaEvent ''r1'' 3 ''Hi'') = 0"
    by (simp add: deltaEvent_def lastSeq_def initialRouterState_def)
  have r: "runId (deltaEvent ''r1'' 3 ''Hi'') = ''r1''" "seq (deltaEvent ''r1'' 3 ''Hi'') = 3"
    by (simp_all add: deltaEvent_def)
  note t = seq_gap_reported_once [OF h, of exampleEnv 5]
  have a: "List.map_filter seqGapOf
        (snd (handleAgentEvent exampleEnv 5 initialRouterState (deltaEvent ''r1'' 3 ''Hi''))) =
       [\<lparr>g_runId = ''r1'', g_stream = ''error'', g_ts = 5, g_sessionKey = Some ''s1'',
         g_reason = ''seq gap'', g_expected = 1, g_received = 3\<rparr>]"
    using t [THEN conjunct1] by (simp add: k l r)
  have b: "agentRunSeq (fst (handleAgentEvent exampleEnv 5 initialRouterState (deltaEvent ''r1'' 3 ''Hi'')))
        ''r1'' = Some 3"
    using t [THEN conjunct2, THEN conjunct2, THEN conjunct2] by (simp add: r)
  show ?thesis using h a b by simp
qed

lemma runEvents_fst_Cons:
  "fst (runEvents env s ((now, evt) # rest)) = fst (runEvents env (fst (handleAgentEvent env now s evt)) rest)"
  by (simp add: split_beta)

lemma runEvents_snd_Cons:
  "snd (runEvents env s ((now, evt) # rest)) =
     snd (handleAgentEvent env now s evt) @ snd (runEvents env (fst (handleAgentEvent env now s evt)) rest)"
  by (simp add: split_beta)

lemma handle_gaps:
  "List.map_filter seqGapOf (snd (handleAgentEvent env now s evt)) =
     (if seq evt \<noteq> lastSeq s evt + 1
      then [\<lparr>g_runId = runId evt, g_stream = ''error'', g_ts = now,
             g_sessionKey = sessionKeyOf env s evt, g_reason = ''seq gap'',
             g_expected = lastSeq s evt + 1, g_received = seq evt\<rparr>]
      else [])"
proof (cases "seq evt = lastSeq s evt + 1")
  case True
  then show ?thesis by (simp add: handle_in_order_no_gap)
next
  case False
  let ?s = "s\<lparr>agentRunSeq := (agentRunSeq s)(runId evt \<mapsto> seq evt - 1)\<rparr>"
  have "seq evt = lastSeq ?s evt + 1" by simp
  then have none: "List.map_filter seqGapOf (snd (handleAgentEvent env now ?s evt)) = []"
    by (rule handle_in_order_no_gap)
  show ?thesis
    using False none
    by (simp add: handle_gap_split [OF False, THEN arg_cong, of snd]
          List.map_filter_simps seqGapPayload_def)
qed

lemma gapsFor_append: "gapsFor r (xs @ ys) = gapsFor r xs @ gapsFor r ys"
  by (simp add: gapsFor_def List.map_filter_def)

lemma gapsFor_handle:
  "gapsFor r (snd (handleAgentEvent env now s evt)) =
     (if runId evt = r \<and> seq evt \<noteq> lastSeq s evt + 1
      then [\<lparr>g_runId = runId evt, g_stream = ''error'', g_ts = now,
             g_sessionKey = sessionKeyOf env s evt, g_reason = ''seq gap'',
             g_expected = lastSeq s evt + 1, g_received = seq evt\<rparr>]
      else [])"
  by (simp add: gapsFor_def handle_gaps)

lemma consecutive_from:
  "(case agentRunSeq s r of Some n \<Rightarrow> n | None \<Rightarrow> 0) = k \<Longrightarrow> seqsOf r evs = [k + 1..m] \<Longrightarrow>
   gapsFor r (snd (runEvents env s evs)) = []"
proof (induction evs arbitrary: s k)
  case Nil
  then show ?case by (simp add: gapsFor_def List.map_filter_simps)
next
  case (Cons a evs)
  obtain now evt where a: "a = (now, evt)" by (cases a)
  let ?s1 = "fst (handleAgentEvent env now s evt)"
  show ?case
  proof (cases "runId evt = r")
    case True
    with Cons.prems(2) a have sq: "seq evt # seqsOf r evs = [k + 1..m]"
      by (simp add: seqsOf_def)
    then have le: "k + 1 \<le> m"
      by (cases "k + 1 \<le> m") auto
    from sq le have hd: "seq evt = k + 1" and tl: "seqsOf r evs = [k + 1 + 1..m]"
      by (simp_all add: upto_rec1 [of "k + 1" m])
    have last: "lastSeq s evt = k" using Cons.prems(1) True by (simp add: lastSeq_def)
    have nxt: "(case agentRunSeq ?s1 r of Some n \<Rightarrow> n | None \<Rightarrow> 0) = k + 1"
      using True hd by (simp add: handle_agentRunSeq)
    have "gapsFor r (snd (runEvents env ?s1 evs)) = []"
      using nxt tl by (rule Cons.IH)
    then show ?thesis
      unfolding a runEvents_snd_Cons gapsFor_append
      using hd last by (simp add: gapsFor_handle)
  next
    case False
    with Cons.prems(2) a have sq: "seqsOf r evs = [k + 1..m]"
      by (simp add: seqsOf_def)
    have nxt: "(case agentRunSeq ?s1 r of Some n \<Rightarrow> n | None \<Rightarrow> 0) = k"
      using False Cons.prems(1) by (simp add: handle_agentRunSeq)
    have "gapsFor r (snd (runEvents env ?s1 evs)) = []"
      using nxt sq by (rule Cons.IH)
    then show ?thesis
      unfolding a runEvents_snd_Cons gapsFor_append
      using False by (simp add: gapsFor_handle)
  qed
qed

text \<open>
  Claim C7, as amended. When no \<open>seq\<close> is recorded yet for run \<open>r\<close> and the events of
  \<open>r\<close> in a feed (interleaved with events of any other runs) carry the consecutive
  \<open>seq\<close> values 1, 2, ..., m, the handler emits no diagnostic for \<open>r\<close>.
\<close>

theorem consecutive_seq_no_gap:
  "agentRunSeq s r = None \<Longrightarrow> seqsOf r evs = [1..m] \<Longrightarrow>
   gapsFor r (snd (runEvents env s evs)) = []"
proof -
  assume none: "agentRunSeq s r = None" and seqs: "seqsOf r evs = [1..m]"
  from none have last: "(case agentRunSeq s r of Some n \<Rightarrow> n | None \<Rightarrow> 0) = 0"
    by simp
  from seqs have "seqsOf r evs = [0 + 1..m]" by simp
  with last show ?thesis by (rule consecutive_from)
qed

theorem consecutive_seq_no_gap_witness:
  "agentRunSeq initialRouterState ''r1'' = None
   \<and> seqsOf ''r1'' [(1, deltaEvent ''r1'' 1 ''a''), (2, toolEvent ''r2'' 7 ''start'' ''search''),
                    (3, deltaEvent ''r1'' 2 ''ab'')] = [1..2]
   \<and> gapsFor ''r1''
        (snd (runEvents exampleEnv initialRouterState
               [(1, deltaEvent ''r1'' 1 ''a''), (2, toolEvent ''r2'' 7 ''start'' ''search''),
                (3, deltaEvent ''r1'' 2 ''ab'')])) = []"
proof -
  have a: "agentRunSeq initialRouterState ''r1'' = None" by (simp add: initialRouterState_def)
  have b: "seqsOf ''r1'' [(1, deltaEvent ''r1'' 1 ''a''), (2, toolEvent ''r2'' 7 ''start'' ''search''),
                    (3, deltaEvent ''r1'' 2 ''ab'')] = [1..2]"
    by (simp add: seqsOf_def deltaEvent_def toolEvent_def upto_rec1)
  from consecutive_seq_no_gap [OF a b, of exampleEnv] show ?thesis using a b by simp
qed

text \<open>
  Claim C7 as stated fails: the \<open>seq\<close> values 1, 3 are strictly increasing and start
  at 1, and the second event is reported as a gap (expected 2, received 3).
\<close>

theorem strictly_increasing_gap_counterexample:
  "sorted_wrt (<) (seqsOf ''r1'' [(1, deltaEvent ''r1'' 1 ''a''), (2, deltaEvent ''r1'' 3 ''ab'')])
   \<and> hd (seqsOf ''r1'' [(1, deltaEvent ''r1'' 1 ''a''), (2, deltaEvent ''r1'' 3 ''ab'')]) = 1
   \<and> gapsFor ''r1''
        (snd (runEvents exampleEnv initialRouterState
               [(1, deltaEvent ''r1'' 1 ''a''), (2, deltaEvent ''r1'' 3 ''ab'')])) =
       [\<lparr>g_runId = ''r1'', g_stream = ''error'', g_ts = 2, g_sessionKey = Some ''s1'',
         g_reason = ''seq gap'', g_expected = 2, g_received = 3\<rparr>]"
  by (simp add: router_eval seqsOf_def gapsFor_def List.map_filter_simps)

lemma shift_of_peek:
  "peek m k = Some link \<Longrightarrow> fst (shift m k) = Some link"
  by (auto simp: peek_def shift_def split: option.splits list.splits)

lemma shift_no_peek:
  "peek m k = None \<Longrightarrow> shift m k = (None, m)"
  by (auto simp: peek_def shift_def split: option.splits list.splits)

lemma remove_head_is_shift:
  "peek m k = Some link \<Longrightarrow> sk \<noteq> [] \<Longrightarrow> sessionKey link = sk \<Longrightarrow>
   remove m k (clientRunId link) (Some sk) = shift m k"
  by (auto simp: peek_def shift_def remove_def findIndex_def removeMatches_def Let_def
      split: option.splits list.splits)

lemma truthy_SomeD: "truthy k \<Longrightarrow> \<exists>v. k = Some v \<and> v \<noteq> []"
  by (cases k) auto

lemma handle_terminal_state:
  assumes t: "isTerminal evt" and k: "truthy (sessionKeyOf env s evt)"
  shows "messageIndexByRun (fst (handleAgentEvent env now s evt))
           = (messageIndexByRun s)(clientRunIdOf s evt := None)"
    and "abortedRuns (fst (handleAgentEvent env now s evt))
           = (if isAborted s evt
              then ((abortedRuns s)(clientRunIdOf s evt := None))(runId evt := None)
              else abortedRuns s)"
    and "registry (fst (handleAgentEvent env now s evt)) = snd (shift (registry s) (runId evt))"
proof -
  from k obtain v where v: "sessionKeyOf env s evt = Some v" "v \<noteq> []"
    by (auto dest: truthy_SomeD)
  from t have st: "stream evt = ''lifecycle''"
    by (auto simp: isTerminal_def lifecyclePhase_def split: if_splits)
  have nd: "stream evt \<noteq> ''assistant''" "stream evt \<noteq> ''tool''" using st by auto
  show "messageIndexByRun (fst (handleAgentEvent env now s evt))
           = (messageIndexByRun s)(clientRunIdOf s evt := None)"
  proof (cases "chatLinkOf s evt")
    case None
    then show ?thesis
      using t v nd
      by (simp add: handleAgentEvent_def chatDispatch_def Let_def split_beta
           emitChatFinal_fst clientRunIdOf_def)
  next
    case (Some link)
    then have sh: "fst (shift (registry s) (runId evt)) = Some link"
      by (simp add: chatLinkOf_def shift_of_peek)
    have vl: "v = sessionKey link" using v Some by (simp add: sessionKeyOf_def)
    have rm: "remove (registry s) (runId evt) (clientRunId link) (Some v) = shift (registry s) (runId evt)"
      using Some v vl by (simp add: chatLinkOf_def remove_head_is_shift)
    show ?thesis
      using t v nd Some sh rm
      by (cases "shift (registry s) (runId evt)")
         (simp add: handleAgentEvent_def chatDispatch_def Let_def split_beta
           emitChatFinal_fst clientRunIdOf_def)
  qed
  show "abortedRuns (fst (handleAgentEvent env now s evt))
           = (if isAborted s evt
              then ((abortedRuns s)(clientRunIdOf s evt := None))(runId evt := None)
              else abortedRuns s)"
  proof (cases "chatLinkOf s evt")
    case None
    then show ?thesis
      using t v nd
      by (simp add: handleAgentEvent_def chatDispatch_def Let_def split_beta
           emitChatFinal_fst clientRunIdOf_def)
  next
    case (Some link)
    then have sh: "fst (shift (registry s) (runId evt)) = Some link"
      by (simp add: chatLinkOf_def shift_of_peek)
    show ?thesis
      using t v nd Some sh
      by (cases "shift (registry s) (runId evt)")
         (simp add: handleAgentEvent_def chatDispatch_def Let_def split_beta
           emitChatFinal_fst clientRunIdOf_def)
  qed
  show "registry (fst (handleAgentEvent env now s evt)) = snd (shift (registry s) (runId evt))"
  proof (cases "chatLinkOf s evt")
    case None
    then have "shift (registry s) (runId evt) = (None, registry s)"
      by (simp add: chatLinkOf_def shift_no_peek)
    then show ?thesis
      using t v nd None
      by (simp add: handleAgentEvent_def chatDispatch_def Let_def split_beta
           emitChatFinal_fst clientRunIdOf_def)
  next
    case (Some link)
    then have sh: "fst (shift (registry s) (runId evt)) = Some link"
      by (simp add: chatLinkOf_def shift_of_peek)
    have vl: "v = sessionKey link" using v Some by (simp add: sessionKeyOf_def)
    have rm: "remove (registry s) (runId evt) (clientRunId link) (Some v) = shift (registry s) (runId evt)"
      using Some v vl by (simp add: chatLinkOf_def remove_head_is_shift)
    show ?thesis
      using t v nd Some sh rm
      by (cases "shift (registry s) (runId evt)")
         (simp add: handleAgentEvent_def chatDispatch_def Let_def split_beta
           emitChatFinal_fst clientRunIdOf_def)
  qed
qed

lemma chatDispatch_final_only_terminal:
  "x \<in> set (fst (snd (chatDispatch env now s0 sk (AgentP e k) skip evt s))) \<Longrightarrow>
   isFinalOrError x \<Longrightarrow> \<not> isAborted s0 evt \<and> isTerminal evt"
  unfolding chatDispatch_def Let_def split_beta
  by (auto simp: emitToolEvent_snd emitChatDelta_snd isFinalOrError_def
      split: if_splits option.splits)

lemma handle_final_only_terminal:
  "x \<in> set (snd (handleAgentEvent env now s evt)) \<Longrightarrow> isFinalOrError x \<Longrightarrow>
   truthy (sessionKeyOf env s evt) \<and> \<not> isAborted s evt \<and> isTerminal evt"
  unfolding handleAgentEvent_def Let_def split_beta
  by (auto simp: isFinalOrError_def seqGapPayload_def split: if_splits option.splits
      dest: chatDispatch_final_only_terminal [unfolded isFinalOrError_def])

lemma chatDispatch_aborted_silent:
  "isAborted s0 evt \<Longrightarrow>
   x \<in> set (fst (snd (chatDispatch env now s0 sk ap skip evt s))) \<Longrightarrow> \<not> isChatNotification x"
  unfolding chatDispatch_def Let_def split_beta
  by (auto split: if_splits)

lemma handle_aborted_silent:
  "isAborted s evt \<Longrightarrow>
   x \<in> set (snd (handleAgentEvent env now s evt)) \<Longrightarrow> \<not> isChatNotification x"
  unfolding handleAgentEvent_def Let_def split_beta
  by (auto split: if_splits option.splits dest: chatDispatch_aborted_silent)

lemma handle_terminal_emits:
  assumes t: "isTerminal evt" and k: "truthy (sessionKeyOf env s evt)" and a: "\<not> isAborted s evt"
  shows "\<exists>x \<in> set (snd (handleAgentEvent env now s evt)). isFinalOrError x"
proof -
  from k obtain v where v: "sessionKeyOf env s evt = Some v" "v \<noteq> []"
    by (auto dest: truthy_SomeD)
  from t have st: "stream evt = ''lifecycle''"
    by (auto simp: isTerminal_def lifecyclePhase_def split: if_splits)
  have nd: "stream evt \<noteq> ''assistant''" "stream evt \<noteq> ''tool''" using st by auto
  show ?thesis
  proof (cases "chatLinkOf s evt")
    case None
    then show ?thesis
      using t v nd a
      by (simp add: handleAgentEvent_def chatDispatch_def Let_def split_beta
           emitChatFinal_snd isFinalOrError_def)
  next
    case (Some link)
    then have sh: "fst (shift (registry s) (runId evt)) = Some link"
      by (simp add: chatLinkOf_def shift_of_peek)
    show ?thesis
      using t v nd a Some sh
      by (cases "shift (registry s) (runId evt)")
         (simp add: handleAgentEvent_def chatDispatch_def Let_def split_beta
           emitChatFinal_snd isFinalOrError_def)
  qed
qed

text \<open>
  Claim C4, as amended. After the handler has processed a terminal lifecycle event whose
  session key resolves, no entry is left for the event's client run id in
  \<open>messageIndexByRun\<close> nor in \<open>abortedRuns\<close>; on such an event the handler either
  broadcasts a final or error chat notification or performs the aborted-run cleanup.
\<close>

theorem terminal_leaves_no_entries:
  "isTerminal evt \<Longrightarrow> truthy (sessionKeyOf env s evt) \<Longrightarrow>
   messageIndexByRun (fst (handleAgentEvent env now s evt)) (clientRunIdOf s evt) = None
   \<and> abortedRuns (fst (handleAgentEvent env now s evt)) (clientRunIdOf s evt) = None
   \<and> ((\<exists>x \<in> set (snd (handleAgentEvent env now s evt)). isFinalOrError x)
        \<or> abortedCleanup env s evt)"
proof -
  assume t: "isTerminal evt" and k: "truthy (sessionKeyOf env s evt)"
  have mi: "messageIndexByRun (fst (handleAgentEvent env now s evt))
           = (messageIndexByRun s)(clientRunIdOf s evt := None)"
    and ab: "abortedRuns (fst (handleAgentEvent env now s evt))
           = (if isAborted s evt
              then ((abortedRuns s)(clientRunIdOf s evt := None))(runId evt := None)
              else abortedRuns s)"
    using t k by (simp_all add: handle_terminal_state)
  have index_gone:
    "messageIndexByRun (fst (handleAgentEvent env now s evt)) (clientRunIdOf s evt) = None"
    by (simp add: mi)
  have marker_gone:
    "abortedRuns (fst (handleAgentEvent env now s evt)) (clientRunIdOf s evt) = None"
    by (simp add: ab) (simp add: isAborted_def)
  have either: "(\<exists>x \<in> set (snd (handleAgentEvent env now s evt)). isFinalOrError x)
        \<or> abortedCleanup env s evt"
    using t k handle_terminal_emits [of evt env s now] by (auto simp: abortedCleanup_def)
  show ?thesis using index_gone marker_gone either by simp
qed

theorem terminal_leaves_no_entries_witness:
  "isTerminal (lifecycleEvent ''r1'' 1 ''end'')
   \<and> truthy (sessionKeyOf exampleEnv
        (initialRouterState\<lparr>messageIndexByRun := [''r1'' \<mapsto> 2]\<rparr>)
        (lifecycleEvent ''r1'' 1 ''end''))
   \<and> messageIndexByRun (fst (handleAgentEvent exampleEnv 5
        (initialRouterState\<lparr>messageIndexByRun := [''r1'' \<mapsto> 2]\<rparr>)
        (lifecycleEvent ''r1'' 1 ''end''))) ''r1'' = None
   \<and> isTerminal (lifecycleEvent ''r1'' 1 ''error'')
   \<and> truthy (sessionKeyOf exampleEnv
        (initialRouterState\<lparr>messageIndexByRun := [''r1'' \<mapsto> 2], abortedRuns := [''r1'' \<mapsto> 7]\<rparr>)
        (lifecycleEvent ''r1'' 1 ''error''))
   \<and> abortedRuns (fst (handleAgentEvent exampleEnv 5
        (initialRouterState\<lparr>messageIndexByRun := [''r1'' \<mapsto> 2], abortedRuns := [''r1'' \<mapsto> 7]\<rparr>)
        (lifecycleEvent ''r1'' 1 ''error''))) ''r1'' = None"
proof -
  let ?s1 = "initialRouterState\<lparr>messageIndexByRun := [''r1'' \<mapsto> 2]\<rparr>"
  let ?s2 = "initialRouterState\<lparr>messageIndexByRun := [''r1'' \<mapsto> 2], abortedRuns := [''r1'' \<mapsto> 7]\<rparr>"
  have c1: "clientRunIdOf ?s1 (lifecycleEvent ''r1'' 1 ''end'') = ''r1''"
    by (simp add: router_eval)
  have c2: "clientRunIdOf ?s2 (lifecycleEvent ''r1'' 1 ''error'') = ''r1''"
    by (simp add: router_eval)
  have t1: "isTerminal (lifecycleEvent ''r1'' 1 ''end'')"
    by (simp add: router_eval)
  have t2: "isTerminal (lifecycleEvent ''r1'' 1 ''error'')"
    by (simp add: router_eval)
  have k1: "truthy (sessionKeyOf exampleEnv ?s1 (lifecycleEvent ''r1'' 1 ''end''))"
    by (simp add: router_eval)
  have k2: "truthy (sessionKeyOf exampleEnv ?s2 (lifecycleEvent ''r1'' 1 ''error''))"
    by (simp add: router_eval)
  have a: "messageIndexByRun (fst (handleAgentEvent exampleEnv 5 ?s1 (lifecycleEvent ''r1'' 1 ''end'')))
             ''r1'' = None"
    using terminal_leaves_no_entries [OF t1 k1, of 5, THEN conjunct1] c1 by simp
  have b: "abortedRuns (fst (handleAgentEvent exampleEnv 5 ?s2 (lifecycleEvent ''r1'' 1 ''error'')))
             ''r1'' = None"
    using terminal_leaves_no_entries [OF t2 k2, of 5, THEN conjunct2, THEN conjunct1] c2 by simp
  show ?thesis using t1 t2 k1 k2 a b by simp
qed

text \<open>
  Claim C4 as stated fails when the session key does not resolve: run \<open>r2\<close> has no
  RunLink and the resolver knows no key for it, so the terminal event reaches neither
  \<open>emitChatFinal\<close> nor the cleanup branch, and both entries of the run stay.
\<close>

theorem terminal_leaves_entries_counterexample:
  "isTerminal (lifecycleEvent ''r2'' 1 ''end'')
   \<and> clientRunIdOf
        (initialRouterState\<lparr>messageIndexByRun := [''r2'' \<mapsto> 1], abortedRuns := [''r2'' \<mapsto> 7]\<rparr>)
        (lifecycleEvent ''r2'' 1 ''end'') = ''r2''
   \<and> messageIndexByRun (fst (handleAgentEvent exampleEnv 5
        (initialRouterState\<lparr>messageIndexByRun := [''r2'' \<mapsto> 1], abortedRuns := [''r2'' \<mapsto> 7]\<rparr>)
        (lifecycleEvent ''r2'' 1 ''end''))) ''r2'' = Some 1
   \<and> abortedRuns (fst (handleAgentEvent exampleEnv 5
        (initialRouterState\<lparr>messageIndexByRun := [''r2'' \<mapsto> 1], abortedRuns := [''r2'' \<mapsto> 7]\<rparr>)
        (lifecycleEvent ''r2'' 1 ''end''))) ''r2'' = Some 7
   \<and> List.filter isChatNotification (snd (handleAgentEvent exampleEnv 5
        (initialRouterState\<lparr>messageIndexByRun := [''r2'' \<mapsto> 1], abortedRuns := [''r2'' \<mapsto> 7]\<rparr>)
        (lifecycleEvent ''r2'' 1 ''end''))) = []"
  by (simp add: router_eval)

lemma handle_aborted_nonterminal_state:
  assumes a: "isAborted s evt" and nt: "\<not> isTerminal evt"
  shows "registry (fst (handleAgentEvent env now s evt)) = registry s
       \<and> messageIndexByRun (fst (handleAgentEvent env now s evt)) = messageIndexByRun s
       \<and> abortedRuns (fst (handleAgentEvent env now s evt)) = abortedRuns s"
  using a nt
  by (simp add: handleAgentEvent_def chatDispatch_def Let_def split_beta split: option.splits)

text \<open>
  Claim C3, as amended. For an event of a run marked as aborted under the client run id
  or the internal run id, the handler makes no call on the chat channel, whatever the
  event is. A non-terminal event leaves registry, message indices and abort markers as
  they are. A terminal lifecycle event whose session key resolves deletes the abort
  marker under both the client and the internal run id, deletes the message-index entry
  under the client run id, and removes the head RunLink of the run's queue, if there is
  one.
\<close>

theorem aborted_run_cleanup_only:
  "isAborted s evt \<Longrightarrow>
   (\<forall>x \<in> set (snd (handleAgentEvent env now s evt)). \<not> isChatNotification x)
   \<and> (\<not> isTerminal evt \<longrightarrow>
        registry (fst (handleAgentEvent env now s evt)) = registry s
      \<and> messageIndexByRun (fst (handleAgentEvent env now s evt)) = messageIndexByRun s
      \<and> abortedRuns (fst (handleAgentEvent env now s evt)) = abortedRuns s)
   \<and> (isTerminal evt \<and> truthy (sessionKeyOf env s evt) \<longrightarrow>
        abortedRuns (fst (handleAgentEvent env now s evt))
          = ((abortedRuns s)(clientRunIdOf s evt := None))(runId evt := None)
      \<and> messageIndexByRun (fst (handleAgentEvent env now s evt))
          = (messageIndexByRun s)(clientRunIdOf s evt := None)
      \<and> registry (fst (handleAgentEvent env now s evt)) = snd (shift (registry s) (runId evt)))"
proof -
  assume a: "isAborted s evt"
  have silent: "\<forall>x \<in> set (snd (handleAgentEvent env now s evt)). \<not> isChatNotification x"
    using a by (auto dest: handle_aborted_silent)
  show ?thesis
    using silent a handle_aborted_nonterminal_state [OF a, of env now]
    by (simp add: handle_terminal_state)
qed

theorem aborted_run_cleanup_only_witness:
  "isAborted
     (initialRouterState\<lparr>registry := [''r1'' \<mapsto> [\<lparr>sessionKey = ''s1'', clientRunId = ''c1''\<rparr>]],
                         messageIndexByRun := [''c1'' \<mapsto> 1], abortedRuns := [''c1'' \<mapsto> 7]\<rparr>)
     (lifecycleEvent ''r1'' 1 ''error'')
   \<and> List.filter isChatNotification
       (snd (handleAgentEvent exampleEnv 5
         (initialRouterState\<lparr>registry := [''r1'' \<mapsto> [\<lparr>sessionKey = ''s1'', clientRunId = ''c1''\<rparr>]],
                             messageIndexByRun := [''c1'' \<mapsto> 1], abortedRuns := [''c1'' \<mapsto> 7]\<rparr>)
         (lifecycleEvent ''r1'' 1 ''error''))) = []
   \<and> abortedRuns
       (fst (handleAgentEvent exampleEnv 5
         (initialRouterState\<lparr>registry := [''r1'' \<mapsto> [\<lparr>sessionKey = ''s1'', clientRunId = ''c1''\<rparr>]],
                             messageIndexByRun := [''c1'' \<mapsto> 1], abortedRuns := [''c1'' \<mapsto> 7]\<rparr>)
         (lifecycleEvent ''r1'' 1 ''error''))) ''c1'' = None
   \<and> messageIndexByRun
       (fst (handleAgentEvent exampleEnv 5
         (initialRouterState\<lparr>registry := [''r1'' \<mapsto> [\<lparr>sessionKey = ''s1'', clientRunId = ''c1''\<rparr>]],
                             messageIndexByRun := [''c1'' \<mapsto> 1], abortedRuns := [''c1'' \<mapsto> 7]\<rparr>)
         (lifecycleEvent ''r1'' 1 ''error''))) ''c1'' = None
   \<and> registry
       (fst (handleAgentEvent exampleEnv 5
         (initialRouterState\<lparr>registry := [''r1'' \<mapsto> [\<lparr>sessionKey = ''s1'', clientRunId = ''c1''\<rparr>]],
                             messageIndexByRun := [''c1'' \<mapsto> 1], abortedRuns := [''c1'' \<mapsto> 7]\<rparr>)
         (lifecycleEvent ''r1'' 1 ''error''))) ''r1'' = None"
proof -
  let ?s = "initialRouterState\<lparr>registry := [''r1'' \<mapsto> [\<lparr>sessionKey = ''s1'', clientRunId = ''c1''\<rparr>]],
                         messageIndexByRun := [''c1'' \<mapsto> 1], abortedRuns := [''c1'' \<mapsto> 7]\<rparr>"
  let ?e = "lifecycleEvent ''r1'' 1 ''error''"
  have a: "isAborted ?s ?e" by (simp add: router_eval)
  have t: "isTerminal ?e \<and> truthy (sessionKeyOf exampleEnv ?s ?e)" by (simp add: router_eval)
  have c: "clientRunIdOf ?s ?e = ''c1''" by (simp add: router_eval)
  have sh: "snd (shift (registry ?s) (runId ?e)) ''r1'' = None" by (simp add: router_eval)
  note th = aborted_run_cleanup_only [OF a, of exampleEnv 5]
  have f: "List.filter isChatNotification (snd (handleAgentEvent exampleEnv 5 ?s ?e)) = []"
    using th [THEN conjunct1] by (simp add: filter_empty_conv)
  have g: "abortedRuns (fst (handleAgentEvent exampleEnv 5 ?s ?e)) ''c1'' = None"
     "messageIndexByRun (fst (handleAgentEvent exampleEnv 5 ?s ?e)) ''c1'' = None"
     "registry (fst (handleAgentEvent exampleEnv 5 ?s ?e)) ''r1'' = None"
    using th [THEN conjunct2, THEN conjunct2] t c sh by simp_all
  show ?thesis using a f g by simp
qed

text \<open>
  Claim C3 as stated fails on two inputs. First, an aborted run whose session key does
  not resolve (no RunLink, and the resolver knows no key for \<open>r2\<close>): the terminal event
  leaves the abort marker in place. Second, an aborted run whose RunLink names client
  run \<open>c1\<close> for internal run \<open>r1\<close>, with a message-index entry under each id: the
  terminal event deletes the entry under \<open>c1\<close> only, and the one under \<open>r1\<close> stays.
  Entries under both ids arise when events of \<open>r1\<close> are handled before a RunLink is
  queued for it, which are counted under \<open>r1\<close>, and further ones after, which are
  counted under \<open>c1\<close>.
\<close>

theorem aborted_run_cleanup_counterexample:
  "isAborted (initialRouterState\<lparr>abortedRuns := [''r2'' \<mapsto> 7]\<rparr>) (lifecycleEvent ''r2'' 1 ''error'')
   \<and> isTerminal (lifecycleEvent ''r2'' 1 ''error'')
   \<and> abortedRuns
       (fst (handleAgentEvent exampleEnv 5 (initialRouterState\<lparr>abortedRuns := [''r2'' \<mapsto> 7]\<rparr>)
              (lifecycleEvent ''r2'' 1 ''error''))) ''r2'' = Some 7
   \<and> isAborted
       (initialRouterState\<lparr>registry := [''r1'' \<mapsto> [\<lparr>sessionKey = ''s1'', clientRunId = ''c1''\<rparr>]],
                           messageIndexByRun := [''c1'' \<mapsto> 1, ''r1'' \<mapsto> 2],
                           abortedRuns := [''c1'' \<mapsto> 7]\<rparr>)
       (lifecycleEvent ''r1'' 1 ''error'')
   \<and> clientRunIdOf
       (initialRouterState\<lparr>registry := [''r1'' \<mapsto> [\<lparr>sessionKey = ''s1'', clientRunId = ''c1''\<rparr>]],
                           messageIndexByRun := [''c1'' \<mapsto> 1, ''r1'' \<mapsto> 2],
                           abortedRuns := [''c1'' \<mapsto> 7]\<rparr>)
       (lifecycleEvent ''r1'' 1 ''error'') = ''c1''
   \<and> messageIndexByRun
       (fst (handleAgentEvent exampleEnv 5
         (initialRouterState\<lparr>registry := [''r1'' \<mapsto> [\<lparr>sessionKey = ''s1'', clientRunId = ''c1''\<rparr>]],
                             messageIndexByRun := [''c1'' \<mapsto> 1, ''r1'' \<mapsto> 2],
                             abortedRuns := [''c1'' \<mapsto> 7]\<rparr>)
         (lifecycleEvent ''r1'' 1 ''error''))) ''r1'' = Some 2"
  by (simp add: router_eval)

lemma isTerminal_stream: "isTerminal evt \<Longrightarrow> stream evt = ''lifecycle''"
  by (auto simp: isTerminal_def lifecyclePhase_def split: if_splits)

lemma chatDispatch_index_step:
  assumes ne: "\<not> (isTerminal evt \<and> clientRunIdOf s0 evt = c)"
    and reg: "registry s = registry s0"
  shows "currentIndex (fst (chatDispatch env now s0 sk ap skip evt s)) c =
     currentIndex s c + (if \<not> isAborted s0 evt \<and> clientRunIdOf s0 evt = c \<and> isToolStart evt
                         then 1 else 0)"
proof (cases "isTerminal evt")
  case True
  then have st: "stream evt = ''lifecycle''" by (rule isTerminal_stream)
  from True ne have c: "clientRunIdOf s0 evt \<noteq> c" by simp
  have nts: "\<not> isToolStart evt" using st by (simp add: isToolStart_def)
  show ?thesis
  proof (cases "chatLinkOf s0 evt")
    case None
    then show ?thesis using True st c nts
      by (simp add: chatDispatch_def Let_def split_beta emitChatFinal_fst currentIndex_def
            clientRunIdOf_def)
  next
    case (Some link)
    then have sh: "fst (shift (registry s) (runId evt)) = Some link"
      using reg by (simp add: chatLinkOf_def shift_of_peek)
    show ?thesis using True st c nts Some sh
      by (cases "shift (registry s) (runId evt)")
         (simp add: chatDispatch_def Let_def split_beta emitChatFinal_fst currentIndex_def
            clientRunIdOf_def)
  qed
next
  case False
  then show ?thesis
    by (auto simp: chatDispatch_def Let_def split_beta emitToolEvent_fst emitChatDelta_fst
          currentIndex_def isToolStart_def split: option.splits)
qed

lemma handle_index_step:
  assumes ne: "\<not> ends env s c evt"
  shows "currentIndex (fst (handleAgentEvent env now s evt)) c =
     currentIndex s c + (if observes env s c evt \<and> isToolStart evt then 1 else 0)"
proof (cases "truthy (sessionKeyOf env s evt)")
  case False
  then show ?thesis
    by (auto simp: handleAgentEvent_def Let_def split_beta observes_def currentIndex_def
          split: option.splits)
next
  case True
  then obtain v where v: "sessionKeyOf env s evt = Some v" "v \<noteq> []"
    by (auto dest: truthy_SomeD)
  from ne True have ne': "\<not> (isTerminal evt \<and> clientRunIdOf s evt = c)"
    by (simp add: ends_def)
  show ?thesis
    using v True
    by (simp add: handleAgentEvent_def Let_def split_beta observes_def
          chatDispatch_index_step [OF ne'])
       (simp add: currentIndex_def)
qed

lemma runEvents_index:
  "noEnd env c s evs \<Longrightarrow>
   currentIndex (fst (runEvents env s evs)) c = currentIndex s c + int (toolStarts env c s evs)"
proof (induction evs arbitrary: s)
  case Nil
  then show ?case by simp
next
  case (Cons a evs)
  obtain now evt where a: "a = (now, evt)" by (cases a)
  from Cons.prems a have ne: "\<not> ends env s c evt"
    and rest: "noEnd env c (fst (handleAgentEvent env now s evt)) evs"
    by simp_all
  show ?case
    unfolding a runEvents_fst_Cons
    by (simp add: Cons.IH [OF rest] handle_index_step [OF ne])
qed

lemma handle_delta_step:
  assumes ob: "observes env s c evt" and d: "isDelta evt"
  shows "deltaIndices c (snd (handleAgentEvent env now s evt)) = [Some (currentIndex s c)]"
    and "currentIndex (fst (handleAgentEvent env now s evt)) c = currentIndex s c"
proof -
  from ob obtain v where v: "sessionKeyOf env s evt = Some v" "v \<noteq> []"
    by (auto simp: observes_def dest: truthy_SomeD)
  from ob have na: "\<not> isAborted s evt" and c: "clientRunIdOf s evt = c"
    by (simp_all add: observes_def)
  from d obtain tx where t: "stream evt = ''assistant''" "str_field (data evt) ''text'' = Some tx"
    by (auto simp: isDelta_def)
  show "deltaIndices c (snd (handleAgentEvent env now s evt)) = [Some (currentIndex s c)]"
    using v na c t
    by (simp add: handleAgentEvent_def chatDispatch_def Let_def split_beta emitChatDelta_snd
          deltaIndices_def List.map_filter_simps seqGapPayload_def currentIndex_def isTerminal_def
          lifecyclePhase_def)
  show "currentIndex (fst (handleAgentEvent env now s evt)) c = currentIndex s c"
    using v na c t
    by (simp add: handleAgentEvent_def chatDispatch_def Let_def split_beta emitChatDelta_fst
          currentIndex_def)
qed

lemma handle_tool_start_step:
  assumes ob: "observes env s c evt" and d: "isToolStart evt"
  shows "currentIndex (fst (handleAgentEvent env now s evt)) c = currentIndex s c + 1"
    and "\<exists>x \<in> set (snd (handleAgentEvent env now s evt)).
           \<exists>cp. chatBroadcastOf x = Some cp \<and> p_state cp = ToolStart \<and> p_runId cp = c"
proof -
  from ob obtain v where v: "sessionKeyOf env s evt = Some v" "v \<noteq> []"
    by (auto simp: observes_def dest: truthy_SomeD)
  from ob have na: "\<not> isAborted s evt" and c: "clientRunIdOf s evt = c"
    by (simp_all add: observes_def)
  from d obtain nm where t: "stream evt = ''tool''" "str_field (data evt) ''phase'' = Some ''start''"
      "str_field (data evt) ''name'' = Some nm"
    by (auto simp: isToolStart_def)
  show "currentIndex (fst (handleAgentEvent env now s evt)) c = currentIndex s c + 1"
    using v na c t
    by (simp add: handleAgentEvent_def chatDispatch_def Let_def split_beta emitToolEvent_fst
          currentIndex_def)
  show "\<exists>x \<in> set (snd (handleAgentEvent env now s evt)).
           \<exists>cp. chatBroadcastOf x = Some cp \<and> p_state cp = ToolStart \<and> p_runId cp = c"
    using v na c t
    by (simp add: handleAgentEvent_def chatDispatch_def Let_def split_beta emitToolEvent_snd)
qed

text \<open>
  Claim C1. Take a client run \<open>c\<close> with no message-index entry yet and a feed of events
  (of any runs, with any number of deltas among them) none of which ends \<open>c\<close>, in which
  the handler observes \<open>N\<close> tool starts for \<open>c\<close>. Then the counter of \<open>c\<close> stands at
  \<open>N\<close>; a delta observed next for \<open>c\<close> is broadcast with \<open>messageIndex = N\<close> and leaves
  the counter at \<open>N\<close>; and a tool start observed next leaves the counter at \<open>N + 1\<close> in
  the state that results from the call that emits the tool-start notification, so that
  the very next delta carries \<open>N + 1\<close>. An event is observed for \<open>c\<close> when it resolves to
  \<open>c\<close>, its session key resolves and the run is not aborted; a tool start is a tool
  event with \<open>phase = "start"\<close> and a string \<open>name\<close>, as the handler requires.
\<close>

theorem delta_index_counts_tool_starts:
  assumes fresh: "messageIndexByRun s c = None"
    and alive: "noEnd env c s evs"
    and count: "toolStarts env c s evs = N"
  shows "currentIndex (fst (runEvents env s evs)) c = int N
    \<and> (observes env (fst (runEvents env s evs)) c evt \<and> isDelta evt \<longrightarrow>
         deltaIndices c (snd (handleAgentEvent env now (fst (runEvents env s evs)) evt)) = [Some (int N)]
         \<and> currentIndex (fst (handleAgentEvent env now (fst (runEvents env s evs)) evt)) c = int N)
    \<and> (observes env (fst (runEvents env s evs)) c evt \<and> isToolStart evt \<longrightarrow>
         currentIndex (fst (handleAgentEvent env now (fst (runEvents env s evs)) evt)) c = int N + 1
         \<and> (\<exists>x \<in> set (snd (handleAgentEvent env now (fst (runEvents env s evs)) evt)).
               \<exists>cp. chatBroadcastOf x = Some cp \<and> p_state cp = ToolStart \<and> p_runId cp = c))"
proof -
  have idx: "currentIndex (fst (runEvents env s evs)) c = int N"
    using runEvents_index [OF alive] fresh count by (simp add: currentIndex_def)
  show ?thesis
    using idx handle_delta_step [of env "fst (runEvents env s evs)" c evt now]
      handle_tool_start_step [of env "fst (runEvents env s evs)" c evt now]
    by simp
qed

theorem delta_index_counts_tool_starts_witness:
  "messageIndexByRun initialRouterState ''r1'' = None
   \<and> noEnd exampleEnv ''r1'' initialRouterState
        [(1, deltaEvent ''r1'' 1 ''Hello''), (2, toolEvent ''r1'' 2 ''start'' ''search''),
         (3, toolEvent ''r1'' 3 ''result'' ''search'')]
   \<and> toolStarts exampleEnv ''r1'' initialRouterState
        [(1, deltaEvent ''r1'' 1 ''Hello''), (2, toolEvent ''r1'' 2 ''start'' ''search''),
         (3, toolEvent ''r1'' 3 ''result'' ''search'')] = 1
   \<and> observes exampleEnv
        (fst (runEvents exampleEnv initialRouterState
           [(1, deltaEvent ''r1'' 1 ''Hello''), (2, toolEvent ''r1'' 2 ''start'' ''search''),
            (3, toolEvent ''r1'' 3 ''result'' ''search'')]))
        ''r1'' (deltaEvent ''r1'' 4 ''Found it'')
   \<and> isDelta (deltaEvent ''r1'' 4 ''Found it'')
   \<and> deltaIndices ''r1''
        (snd (handleAgentEvent exampleEnv 4
           (fst (runEvents exampleEnv initialRouterState
              [(1, deltaEvent ''r1'' 1 ''Hello''), (2, toolEvent ''r1'' 2 ''start'' ''search''),
               (3, toolEvent ''r1'' 3 ''result'' ''search'')]))
           (deltaEvent ''r1'' 4 ''Found it''))) = [Some 1]"
proof -
  let ?evs = "[(1, deltaEvent ''r1'' 1 ''Hello''), (2, toolEvent ''r1'' 2 ''start'' ''search''),
         (3, toolEvent ''r1'' 3 ''result'' ''search'')]"
  have a: "messageIndexByRun initialRouterState ''r1'' = None"
    by (simp add: initialRouterState_def)
  have b: "noEnd exampleEnv ''r1'' initialRouterState ?evs"
    by (simp add: ends_def isTerminal_def lifecyclePhase_def deltaEvent_def toolEvent_def)
  have c: "toolStarts exampleEnv ''r1'' initialRouterState ?evs = 1"
    by (simp add: router_eval observes_def isToolStart_def)
  have d: "observes exampleEnv (fst (runEvents exampleEnv initialRouterState ?evs)) ''r1''
             (deltaEvent ''r1'' 4 ''Found it'')"
    by (simp add: router_eval observes_def)
  have e: "isDelta (deltaEvent ''r1'' 4 ''Found it'')"
    by (simp add: isDelta_def deltaEvent_def str_field_def)
  note th = delta_index_counts_tool_starts [OF a b c, of "deltaEvent ''r1'' 4 ''Found it''" 4]
  have f: "deltaIndices ''r1''
        (snd (handleAgentEvent exampleEnv 4 (fst (runEvents exampleEnv initialRouterState ?evs))
           (deltaEvent ''r1'' 4 ''Found it''))) = [Some 1]"
    using th [THEN conjunct2, THEN conjunct1] d e by simp
  show ?thesis using a b c d e f by simp
qed

section \<open>Properties of the client reconciler\<close>

lemma find_setTextOfFirst:
  "find (\<lambda>m. index m = i) (setTextOfFirst i t xs) =
     map_option (\<lambda>m. m\<lparr>msg_text := t\<rparr>) (find (\<lambda>m. index m = i) xs)"
  by (induction xs) auto

lemma setTextOfFirst_idem:
  "setTextOfFirst i t (setTextOfFirst i t xs) = setTextOfFirst i t xs"
  by (induction xs) auto

lemma setTextOfFirst_same:
  "\<forall>m \<in> set xs. index m = i \<longrightarrow> msg_text m = t \<Longrightarrow> setTextOfFirst i t xs = xs"
  by (induction xs) auto

lemma find_inserted:
  "find (\<lambda>m. index m = i) xs = None \<Longrightarrow>
   find (\<lambda>m. index m = i)
     (sort_key index (xs @ [\<lparr>index = i, msg_text = t, startedAt = n\<rparr>])) \<noteq> None"
  by (auto simp: find_None_iff)

lemma inserted_only_match:
  "find (\<lambda>m. index m = i) xs = None \<Longrightarrow>
   \<forall>m \<in> set (sort_key index (xs @ [\<lparr>index = i, msg_text = t, startedAt = n\<rparr>])).
      index m = i \<longrightarrow> msg_text m = t"
  by (auto simp: find_None_iff)

text \<open>
  Claim C6. Delivering the same delta notification a second time to \<open>handleChatEvent\<close>
  leaves \<open>chatStreamMessages\<close> as the first delivery left it; indeed the whole state and
  the returned value are those of the first delivery, whatever the clock reads at the
  second one.
\<close>

theorem delta_twice_is_once:
  "ev_state p = Delta \<Longrightarrow>
   chatStreamMessages (snd (handleChatEvent ex now2 (snd (handleChatEvent ex now1 st (Some p))) (Some p)))
     = chatStreamMessages (snd (handleChatEvent ex now1 st (Some p)))
   \<and> handleChatEvent ex now2 (snd (handleChatEvent ex now1 st (Some p))) (Some p)
     = handleChatEvent ex now1 st (Some p)"
proof -
  assume d: "ev_state p = Delta"
  let ?i = "case ev_messageIndex p of Some i \<Rightarrow> i | None \<Rightarrow> 0"
  have eq: "handleChatEvent ex now2 (snd (handleChatEvent ex now1 st (Some p))) (Some p)
     = handleChatEvent ex now1 st (Some p)"
  proof (cases "ev_sessionKey p \<noteq> cs_sessionKey st
       \<or> (ev_runId p \<noteq> [] \<and> truthy (chatRunId st) \<and> Some (ev_runId p) \<noteq> chatRunId st)")
    case True
    then show ?thesis by (auto simp: handleChatEvent_def)
  next
    case pass: False
    show ?thesis
    proof (cases "ex (ev_message p)")
      case None
      with pass d show ?thesis by (simp add: handleChatEvent_def)
    next
      case (Some t)
      show ?thesis
      proof (cases "find (\<lambda>m. index m = ?i) (chatStreamMessages st)")
        case None
        have a: "find (\<lambda>m. index m = ?i)
                  (sort_key index (chatStreamMessages st @ [\<lparr>index = ?i, msg_text = t, startedAt = now1\<rparr>]))
                 \<noteq> None"
          using None by (rule find_inserted)
        have b: "setTextOfFirst ?i t
                  (sort_key index (chatStreamMessages st @ [\<lparr>index = ?i, msg_text = t, startedAt = now1\<rparr>]))
                 = sort_key index (chatStreamMessages st @ [\<lparr>index = ?i, msg_text = t, startedAt = now1\<rparr>])"
          using inserted_only_match [OF None] by (rule setTextOfFirst_same)
        from a obtain m where m: "find (\<lambda>m. index m = ?i)
                  (sort_key index (chatStreamMessages st @ [\<lparr>index = ?i, msg_text = t, startedAt = now1\<rparr>]))
                 = Some m" by auto
        show ?thesis
          using pass d Some None m b
          by (simp add: handleChatEvent_def Let_def)
      next
        case (Some existing)
        show ?thesis
          using pass d \<open>ex (ev_message p) = Some t\<close> Some
          by (simp add: handleChatEvent_def Let_def find_setTextOfFirst setTextOfFirst_idem)
      qed
    qed
  qed
  show ?thesis using eq by simp
qed

theorem delta_twice_is_once_witness:
  "ev_state (exampleDelta 0 ''Hello'') = Delta
   \<and> chatStreamMessages
        (snd (handleChatEvent (\<lambda>m. m) 5 exampleChatState (Some (exampleDelta 0 ''Hello''))))
       = [\<lparr>index = 0, msg_text = ''Hello'', startedAt = 5\<rparr>,
          \<lparr>index = 1, msg_text = ''Found'', startedAt = 3\<rparr>]
   \<and> chatStreamMessages
        (snd (handleChatEvent (\<lambda>m. m) 9
               (snd (handleChatEvent (\<lambda>m. m) 5 exampleChatState (Some (exampleDelta 0 ''Hello''))))
               (Some (exampleDelta 0 ''Hello''))))
       = [\<lparr>index = 0, msg_text = ''Hello'', startedAt = 5\<rparr>,
          \<lparr>index = 1, msg_text = ''Found'', startedAt = 3\<rparr>]"
proof -
  have d: "ev_state (exampleDelta 0 ''Hello'') = Delta" by (simp add: exampleDelta_def)
  have f: "chatStreamMessages
        (snd (handleChatEvent (\<lambda>m. m) 5 exampleChatState (Some (exampleDelta 0 ''Hello''))))
       = [\<lparr>index = 0, msg_text = ''Hello'', startedAt = 5\<rparr>,
          \<lparr>index = 1, msg_text = ''Found'', startedAt = 3\<rparr>]"
    by (simp add: handleChatEvent_def exampleChatState_def exampleDelta_def Let_def)
  have g: "chatStreamMessages
        (snd (handleChatEvent (\<lambda>m. m) 9
               (snd (handleChatEvent (\<lambda>m. m) 5 exampleChatState (Some (exampleDelta 0 ''Hello''))))
               (Some (exampleDelta 0 ''Hello''))))
       = chatStreamMessages
        (snd (handleChatEvent (\<lambda>m. m) 5 exampleChatState (Some (exampleDelta 0 ''Hello''))))"
    using delta_twice_is_once [OF d, of "\<lambda>m. m" 9 5 exampleChatState] by (rule conjunct1)
  show ?thesis using d f g by simp
qed

text \<open>
  Claim C9. A notification whose \<open>sessionKey\<close> differs from the state's, or whose
  \<open>runId\<close> is present and differs from the active \<open>chatRunId\<close> when there is one, makes
  \<open>handleChatEvent\<close> return \<open>null\<close> and leaves the whole state as it was.
\<close>

theorem stale_notification_ignored:
  "ev_sessionKey p \<noteq> cs_sessionKey st
     \<or> (ev_runId p \<noteq> [] \<and> truthy (chatRunId st) \<and> chatRunId st \<noteq> Some (ev_runId p))
   \<Longrightarrow> handleChatEvent ex now st (Some p) = (None, st)"
proof (cases "ev_sessionKey p \<noteq> cs_sessionKey st")
  case True
  then show ?thesis by (simp add: handleChatEvent_def)
next
  case False
  assume "ev_sessionKey p \<noteq> cs_sessionKey st
     \<or> (ev_runId p \<noteq> [] \<and> truthy (chatRunId st) \<and> chatRunId st \<noteq> Some (ev_runId p))"
  with False have "ev_runId p \<noteq> [] \<and> truthy (chatRunId st) \<and> Some (ev_runId p) \<noteq> chatRunId st"
    by auto
  with False show ?thesis by (simp add: handleChatEvent_def)
qed

theorem stale_notification_ignored_witness:
  "handleChatEvent (\<lambda>m. m) 5 exampleChatState
     (Some ((exampleDelta 0 ''Hello'')\<lparr>ev_sessionKey := ''s2''\<rparr>)) = (None, exampleChatState)
   \<and> handleChatEvent (\<lambda>m. m) 5 exampleChatState
     (Some ((exampleDelta 0 ''Hello'')\<lparr>ev_runId := ''r0'', ev_state := Final\<rparr>))
       = (None, exampleChatState)"
proof (intro conjI)
  show "handleChatEvent (\<lambda>m. m) 5 exampleChatState
     (Some ((exampleDelta 0 ''Hello'')\<lparr>ev_sessionKey := ''s2''\<rparr>)) = (None, exampleChatState)"
    by (rule stale_notification_ignored) (simp add: exampleDelta_def exampleChatState_def)
  show "handleChatEvent (\<lambda>m. m) 5 exampleChatState
     (Some ((exampleDelta 0 ''Hello'')\<lparr>ev_runId := ''r0'', ev_state := Final\<rparr>))
       = (None, exampleChatState)"
    by (rule stale_notification_ignored) (simp add: exampleDelta_def exampleChatState_def)
qed

section \<open>Properties of the tool card pairer\<close>

lemma findIndexFrom_shift:
  "findIndexFrom (Suc k) P xs = map_option Suc (findIndexFrom k (\<lambda>x i. P x (Suc i)) xs)"
  by (induction xs arbitrary: k) auto

lemma findIndex_Cons:
  "findIndex P (x # xs) =
     (if P x 0 then Some 0 else map_option Suc (findIndex (\<lambda>y i. P y (Suc i)) xs))"
  by (simp add: findIndex_def findIndexFrom_shift)

lemma findIndex_Nil: "findIndex P [] = None"
  by (simp add: findIndex_def)

lemma findIndex_Some_iff:
  "findIndex P xs = Some j \<longleftrightarrow>
     j < length xs \<and> P (xs ! j) j \<and> (\<forall>i<j. \<not> P (xs ! i) i)"
proof (induction xs arbitrary: P j)
  case Nil
  then show ?case by (simp add: findIndex_Nil)
next
  case (Cons x xs)
  show ?case
  proof (cases "P x 0")
    case True
    then show ?thesis
      by (cases j) (auto simp: findIndex_Cons)
  next
    case False
    show ?thesis
    proof (cases j)
      case 0
      with False show ?thesis by (auto simp: findIndex_Cons)
    next
      case (Suc j')
      have "(\<forall>i<Suc j'. \<not> P ((x # xs) ! i) i) \<longleftrightarrow> (\<forall>i<j'. \<not> P (xs ! i) (Suc i))"
        using False by (auto simp: less_Suc_eq_0_disj)
      with False Suc show ?thesis
        by (auto simp: findIndex_Cons Cons.IH)
    qed
  qed
qed

lemma findIndex_None_iff:
  "findIndex P xs = None \<longleftrightarrow> (\<forall>i<length xs. \<not> P (xs ! i) i)"
proof
  assume n: "findIndex P xs = None"
  show "\<forall>i<length xs. \<not> P (xs ! i) i"
  proof (rule ccontr)
    assume "\<not> (\<forall>i<length xs. \<not> P (xs ! i) i)"
    then have ex: "\<exists>i. i < length xs \<and> P (xs ! i) i" by auto
    define j where "j = (LEAST i. i < length xs \<and> P (xs ! i) i)"
    have j: "j < length xs \<and> P (xs ! j) j" unfolding j_def using ex by (rule LeastI_ex)
    have "\<forall>i<j. \<not> (i < length xs \<and> P (xs ! i) i)"
      unfolding j_def using not_less_Least by blast
    with j have "findIndex P xs = Some j"
      by (auto simp: findIndex_Some_iff)
    with n show False by simp
  qed
next
  assume "\<forall>i<length xs. \<not> P (xs ! i) i"
  then show "findIndex P xs = None"
    by (cases "findIndex P xs") (auto simp: findIndex_Some_iff)
qed

lemma findResult_Some_iff:
  "findResult call rs used = Some i \<longleftrightarrow>
     i < length rs \<and> i \<notin> used \<and>
     (if truthy (card_id call) \<and> (\<exists>j<length rs. j \<notin> used \<and> card_id (rs ! j) = card_id call)
      then card_id (rs ! i) = card_id call
           \<and> (\<forall>j<i. j \<in> used \<or> card_id (rs ! j) \<noteq> card_id call)
      else name (rs ! i) = name call
           \<and> (\<forall>j<i. j \<in> used \<or> name (rs ! j) \<noteq> name call))"
proof (cases "truthy (card_id call) \<and> (\<exists>j<length rs. j \<notin> used \<and> card_id (rs ! j) = card_id call)")
  case True
  then have "findIndex (\<lambda>r i. i \<notin> used \<and> card_id r = card_id call) rs \<noteq> None"
    by (auto simp: findIndex_None_iff)
  then obtain k where k: "findIndex (\<lambda>r i. i \<notin> used \<and> card_id r = card_id call) rs = Some k"
    by auto
  have "findResult call rs used = Some i \<longleftrightarrow>
        findIndex (\<lambda>r i. i \<notin> used \<and> card_id r = card_id call) rs = Some i"
    using True k by (simp add: findResult_def)
  then show ?thesis using True by (auto simp: findIndex_Some_iff)
next
  case False
  then have "truthy (card_id call) \<Longrightarrow>
      findIndex (\<lambda>r i. i \<notin> used \<and> card_id r = card_id call) rs = None"
    by (auto simp: findIndex_None_iff)
  then have "findResult call rs used = findIndex (\<lambda>r i. i \<notin> used \<and> name r = name call) rs"
    by (simp add: findResult_def)
  then show ?thesis using False by (auto simp: findIndex_Some_iff)
qed

lemma findResult_None_iff:
  "findResult call rs used = None \<longleftrightarrow>
     (\<forall>j<length rs. j \<in> used \<or>
        ((\<not> truthy (card_id call) \<or> card_id (rs ! j) \<noteq> card_id call) \<and> name (rs ! j) \<noteq> name call))"
  by (auto simp: findResult_def Let_def findIndex_None_iff split: option.splits)
     (auto simp: findIndex_Some_iff)

lemma pairCalls_length: "length (fst (pairCalls calls rs used)) = length calls"
  by (induction calls arbitrary: used) (auto simp: split_beta split: option.splits)

lemma pairCalls_used_mono: "used \<subseteq> snd (pairCalls calls rs used)"
proof (induction calls arbitrary: used)
  case Nil
  then show ?case by simp
next
  case (Cons call calls)
  show ?case
  proof (cases "findResult call rs used")
    case None
    then show ?thesis using Cons.IH [of used] by (simp add: split_beta)
  next
    case (Some i)
    then show ?thesis using Cons.IH [of "insert i used"] by (auto simp: split_beta)
  qed
qed

lemma pairCalls_used_bound:
  "snd (pairCalls calls rs used) \<subseteq> used \<union> {..<length rs}"
proof (induction calls arbitrary: used)
  case Nil
  then show ?case by simp
next
  case (Cons call calls)
  show ?case
  proof (cases "findResult call rs used")
    case None
    then show ?thesis using Cons.IH [of used] by (simp add: split_beta)
  next
    case (Some i)
    then have "i < length rs" by (simp add: findResult_Some_iff)
    then show ?thesis using Some Cons.IH [of "insert i used"] by (auto simp: split_beta)
  qed
qed

lemma consumed_text_carried:
  "i \<in> snd (pairCalls calls rs used) \<Longrightarrow> i \<notin> used \<Longrightarrow>
   \<exists>c \<in> set (fst (pairCalls calls rs used)). card_text c = card_text (rs ! i)"
proof (induction calls arbitrary: used)
  case Nil
  then show ?case by simp
next
  case (Cons call calls)
  show ?case
  proof (cases "findResult call rs used")
    case None
    then show ?thesis using Cons.prems Cons.IH [of used] by (auto simp: split_beta)
  next
    case (Some k)
    show ?thesis
    proof (cases "i = k")
      case True
      then show ?thesis using Some by (simp add: split_beta)
    next
      case False
      then show ?thesis using Some Cons.prems Cons.IH [of "insert k used"]
        by (auto simp: split_beta)
    qed
  qed
qed

lemma orphan_emitted:
  "i < length rs \<Longrightarrow> i \<notin> used \<Longrightarrow> rs ! i \<in> set (orphans rs used)"
  by (auto simp: orphans_def)

text \<open>
  Claim C5. For a call card, the pairer picks the first result card not yet consumed
  whose id equals the call's, when the call has an id and such a card exists, and
  otherwise the first one not yet consumed whose name equals the call's. A match pushes
  the call card with the result's text and marks the result consumed; a call without a
  match is pushed as it is. The output is one card per call card, in order, followed by
  the result cards never consumed: every result card is either consumed, its text
  carried by a merged card, or emitted itself. One call card \<open>{id: "a", name: "search"}\<close>
  and one result card \<open>{id: "a", text: "5 results"}\<close> give exactly the merged card
  \<open>{name: "search", text: "5 results"}\<close>.
\<close>

theorem pairer_matches_first_unconsumed:
  "(findResult call rs used = Some i \<longleftrightarrow>
      i < length rs \<and> i \<notin> used \<and>
      (if truthy (card_id call) \<and> (\<exists>j<length rs. j \<notin> used \<and> card_id (rs ! j) = card_id call)
       then card_id (rs ! i) = card_id call
            \<and> (\<forall>j<i. j \<in> used \<or> card_id (rs ! j) \<noteq> card_id call)
       else name (rs ! i) = name call
            \<and> (\<forall>j<i. j \<in> used \<or> name (rs ! j) \<noteq> name call)))
   \<and> (findResult call rs used = Some i \<longrightarrow>
        pairCalls (call # calls) rs used =
          (call\<lparr>card_text := card_text (rs ! i)\<rparr> # fst (pairCalls calls rs (insert i used)),
           snd (pairCalls calls rs (insert i used))))
   \<and> (findResult call rs used = None \<longrightarrow>
        pairCalls (call # calls) rs used =
          (call # fst (pairCalls calls rs used), snd (pairCalls calls rs used)))
   \<and> (findResult call rs used = None \<longleftrightarrow>
        (\<forall>j<length rs. j \<in> used \<or>
           ((\<not> truthy (card_id call) \<or> card_id (rs ! j) \<noteq> card_id call)
            \<and> name (rs ! j) \<noteq> name call)))
   \<and> pairToolCards calls rs =
        fst (pairCalls calls rs {}) @ orphans rs (snd (pairCalls calls rs {}))
   \<and> length (fst (pairCalls calls rs {})) = length calls
   \<and> (\<forall>k<length rs.
         if k \<in> snd (pairCalls calls rs {})
         then \<exists>c \<in> set (fst (pairCalls calls rs {})). card_text c = card_text (rs ! k)
         else rs ! k \<in> set (pairToolCards calls rs))
   \<and> collectAndPairToolCards (\<lambda>m. m)
        [[\<lparr>kind = Call, card_id = Some ''a'', name = ''search'', card_text = None\<rparr>],
         [\<lparr>kind = Result, card_id = Some ''a'', name = rn, card_text = Some ''5 results''\<rparr>]]
      = [\<lparr>kind = Call, card_id = Some ''a'', name = ''search'', card_text = Some ''5 results''\<rparr>]"
proof (intro conjI)
  show "findResult call rs used = Some i \<longleftrightarrow>
      i < length rs \<and> i \<notin> used \<and>
      (if truthy (card_id call) \<and> (\<exists>j<length rs. j \<notin> used \<and> card_id (rs ! j) = card_id call)
       then card_id (rs ! i) = card_id call
            \<and> (\<forall>j<i. j \<in> used \<or> card_id (rs ! j) \<noteq> card_id call)
       else name (rs ! i) = name call
            \<and> (\<forall>j<i. j \<in> used \<or> name (rs ! j) \<noteq> name call))"
    by (rule findResult_Some_iff)
  show "findResult call rs used = Some i \<longrightarrow>
        pairCalls (call # calls) rs used =
          (call\<lparr>card_text := card_text (rs ! i)\<rparr> # fst (pairCalls calls rs (insert i used)),
           snd (pairCalls calls rs (insert i used)))"
    by (simp add: split_beta)
  show "findResult call rs used = None \<longrightarrow>
        pairCalls (call # calls) rs used =
          (call # fst (pairCalls calls rs used), snd (pairCalls calls rs used))"
    by (simp add: split_beta)
  show "findResult call rs used = None \<longleftrightarrow>
        (\<forall>j<length rs. j \<in> used \<or>
           ((\<not> truthy (card_id call) \<or> card_id (rs ! j) \<noteq> card_id call)
            \<and> name (rs ! j) \<noteq> name call))"
    by (rule findResult_None_iff)
  show "pairToolCards calls rs =
        fst (pairCalls calls rs {}) @ orphans rs (snd (pairCalls calls rs {}))"
    by (simp add: pairToolCards_def split_beta)
  show "length (fst (pairCalls calls rs {})) = length calls"
    by (rule pairCalls_length)
  show "\<forall>k<length rs.
         if k \<in> snd (pairCalls calls rs {})
         then \<exists>c \<in> set (fst (pairCalls calls rs {})). card_text c = card_text (rs ! k)
         else rs ! k \<in> set (pairToolCards calls rs)"
  proof (intro allI impI)
    fix k assume k: "k < length rs"
    show "if k \<in> snd (pairCalls calls rs {})
         then \<exists>c \<in> set (fst (pairCalls calls rs {})). card_text c = card_text (rs ! k)
         else rs ! k \<in> set (pairToolCards calls rs)"
    proof (cases "k \<in> snd (pairCalls calls rs {})")
      case True
      then show ?thesis using consumed_text_carried [of k calls rs "{}"] by simp
    next
      case False
      then show ?thesis using orphan_emitted [OF k False]
        by (simp add: pairToolCards_def split_beta)
    qed
  qed
  show "collectAndPairToolCards (\<lambda>m. m)
        [[\<lparr>kind = Call, card_id = Some ''a'', name = ''search'', card_text = None\<rparr>],
         [\<lparr>kind = Result, card_id = Some ''a'', name = rn, card_text = Some ''5 results''\<rparr>]]
      = [\<lparr>kind = Call, card_id = Some ''a'', name = ''search'', card_text = Some ''5 results''\<rparr>]"
    by (simp add: collectAndPairToolCards_def pairToolCards_def findResult_def findIndex_def
          orphans_def Let_def)
qed

theorem pairer_matches_first_unconsumed_witness:
  "findResult \<lparr>kind = Call, card_id = Some ''a'', name = ''search'', card_text = None\<rparr>
     [\<lparr>kind = Result, card_id = Some ''z'', name = ''search'', card_text = Some ''by name''\<rparr>,
      \<lparr>kind = Result, card_id = Some ''a'', name = ''other'', card_text = Some ''by id''\<rparr>,
      \<lparr>kind = Result, card_id = None, name = ''lost'', card_text = Some ''orphan''\<rparr>] {} = Some 1
   \<and> pairToolCards
       [\<lparr>kind = Call, card_id = Some ''a'', name = ''search'', card_text = None\<rparr>,
        \<lparr>kind = Call, card_id = None, name = ''search'', card_text = None\<rparr>,
        \<lparr>kind = Call, card_id = None, name = ''fetch'', card_text = None\<rparr>]
       [\<lparr>kind = Result, card_id = Some ''z'', name = ''search'', card_text = Some ''by name''\<rparr>,
        \<lparr>kind = Result, card_id = Some ''a'', name = ''other'', card_text = Some ''by id''\<rparr>,
        \<lparr>kind = Result, card_id = None, name = ''lost'', card_text = Some ''orphan''\<rparr>]
     = [\<lparr>kind = Call, card_id = Some ''a'', name = ''search'', card_text = Some ''by id''\<rparr>,
        \<lparr>kind = Call, card_id = None, name = ''search'', card_text = Some ''by name''\<rparr>,
        \<lparr>kind = Call, card_id = None, name = ''fetch'', card_text = None\<rparr>,
        \<lparr>kind = Result, card_id = None, name = ''lost'', card_text = Some ''orphan''\<rparr>]"
proof -
  let ?call = "\<lparr>kind = Call, card_id = Some ''a'', name = ''search'', card_text = None\<rparr>"
  let ?calls = "[\<lparr>kind = Call, card_id = None, name = ''search'', card_text = None\<rparr>,
        \<lparr>kind = Call, card_id = None, name = ''fetch'', card_text = None\<rparr>]"
  let ?rs = "[\<lparr>kind = Result, card_id = Some ''z'', name = ''search'', card_text = Some ''by name''\<rparr>,
      \<lparr>kind = Result, card_id = Some ''a'', name = ''other'', card_text = Some ''by id''\<rparr>,
      \<lparr>kind = Result, card_id = None, name = ''lost'', card_text = Some ''orphan''\<rparr>]"
  note th = pairer_matches_first_unconsumed [of ?call ?rs "{}" 1 ?calls]
  have ex: "\<exists>j<length ?rs. j \<notin> {} \<and> card_id (?rs ! j) = card_id ?call"
    by (rule exI [of _ 1]) simp
  have f: "findResult ?call ?rs {} = Some 1"
    using th [THEN conjunct1] ex by simp
  have step: "pairCalls (?call # ?calls) ?rs {} =
          (?call\<lparr>card_text := card_text (?rs ! 1)\<rparr> # fst (pairCalls ?calls ?rs (insert 1 {})),
           snd (pairCalls ?calls ?rs (insert 1 {})))"
    using th [THEN conjunct2, THEN conjunct1] f by simp
  have rest: "pairCalls ?calls ?rs (insert 1 {}) =
      ([\<lparr>kind = Call, card_id = None, name = ''search'', card_text = Some ''by name''\<rparr>,
        \<lparr>kind = Call, card_id = None, name = ''fetch'', card_text = None\<rparr>], {0, 1})"
    by (simp add: findResult_def findIndex_def Let_def insert_commute)
  have "pairToolCards (?call # ?calls) ?rs =
      [\<lparr>kind = Call, card_id = Some ''a'', name = ''search'', card_text = Some ''by id''\<rparr>,
        \<lparr>kind = Call, card_id = None, name = ''search'', card_text = Some ''by name''\<rparr>,
        \<lparr>kind = Call, card_id = None, name = ''fetch'', card_text = None\<rparr>,
        \<lparr>kind = Result, card_id = None, name = ''lost'', card_text = Some ''orphan''\<rparr>]"
    unfolding pairToolCards_def step rest
    by (simp add: orphans_def upt_rec)
  with f show ?thesis by simp
qed

end
